theory Spec2Isabelle
  imports Main "HOL-Library.AList"
begin

section \<open>The URL shortener of main.py\<close>

text \<open>
  The service keeps two module-level dictionaries, \<open>url_mappings\<close> (short code to
  original URL) and \<open>url_stats\<close> (short code to a dictionary with the keys
  \<open>clicks\<close>, \<open>created_at\<close> and \<open>expires_at\<close>). Every view function is embedded as a
  function from the store before the call to the outcome and the store after it. What
  the Python reads from its environment is an argument of the model: the clock
  (\<open>datetime.utcnow()\<close>), the successive results of \<open>generate_short_code()\<close>, the
  parsed request body (\<open>request.get_json()\<close>) and the standard library's \<open>urlparse\<close>.
  The model is sequential: one call runs to its end before the next starts.
\<close>

subsection \<open>Python values\<close>

text \<open>
  An uncaught exception is a value. Only the built-in exceptions the modelled lines can
  raise are listed.
\<close>

datatype py_error = TypeError | AttributeError | KeyError | OverflowError

text \<open>
  A naive \<open>datetime\<close> is the number of microseconds since \<open>datetime.min\<close>
  (0001-01-01T00:00:00); \<open>datetime.max\<close> is 9999-12-31T23:59:59.999999, the last
  microsecond of day 3652059.
\<close>

type_synonym datetime = int

definition datetime_max :: datetime where
  "datetime_max = 3652059 * 86400000000 - 1"

text \<open>
  The values the source keeps under \<open>created_at\<close> and \<open>expires_at\<close>. Python does
  not type them: \<open>shorten_url\<close> writes \<open>None\<close> or the string \<open>d.isoformat()\<close>,
  \<open>get_stats\<close> parses that string back with \<open>datetime.fromisoformat\<close>, and
  \<open>cleanup_expired_urls\<close> compares the stored value with a \<open>datetime\<close> directly.
  \<open>IsoStr d\<close> stands for the \<open>str\<close> object \<open>d.isoformat()\<close> (\<open>fromisoformat\<close> is
  its inverse), \<open>Datetime d\<close> for the \<open>datetime\<close> object itself.
\<close>

datatype pyval = PNone | IsoStr datetime | Datetime datetime

text \<open>Truth value: \<open>None\<close> is false; an ISO string is never empty; a datetime is true.\<close>

fun truthy :: "pyval \<Rightarrow> bool" where
  "truthy PNone = False"
| "truthy (IsoStr d) = True"
| "truthy (Datetime d) = True"

text \<open>
  \<open>v < now\<close> with \<open>now\<close> a datetime: two datetimes compare; a \<open>str\<close> or \<open>None\<close> on the
  left has no ordering with a datetime, and Python raises \<open>TypeError\<close>.
\<close>

fun py_lt :: "pyval \<Rightarrow> datetime \<Rightarrow> py_error + bool" where
  "py_lt (Datetime d) now = Inr (d < now)"
| "py_lt (IsoStr d) now = Inl TypeError"
| "py_lt PNone now = Inl TypeError"

text \<open>\<open>datetime.fromisoformat(v)\<close>: the argument must be a \<open>str\<close>.\<close>

fun fromisoformat :: "pyval \<Rightarrow> py_error + datetime" where
  "fromisoformat (IsoStr d) = Inr d"
| "fromisoformat (Datetime d) = Inl TypeError"
| "fromisoformat PNone = Inl TypeError"

text \<open>
  The body \<open>request.get_json()\<close> returns. Numbers are Python's unbounded \<open>int\<close>;
  JSON literals with a fraction or an exponent (Python \<open>float\<close>) are outside the model.
  A \<open>str\<close> is a list of code points below 256, one \<open>char\<close> each.
\<close>

datatype json =
    JNull
  | JBool bool
  | JInt int
  | JStr string
  | JArr "json list"
  | JObj "(string \<times> json) list"

fun json_truthy :: "json \<Rightarrow> bool" where
  "json_truthy JNull = False"
| "json_truthy (JBool b) = b"
| "json_truthy (JInt n) = (n \<noteq> 0)"
| "json_truthy (JStr s) = (s \<noteq> [])"
| "json_truthy (JArr xs) = (xs \<noteq> [])"
| "json_truthy (JObj kvs) = (kvs \<noteq> [])"

text \<open>\<open>p in s\<close> for two strings: \<open>p\<close> occurs in \<open>s\<close> as a contiguous piece.\<close>

fun is_substring :: "string \<Rightarrow> string \<Rightarrow> bool" where
  "is_substring p [] = (p = [])"
| "is_substring p (c # s) = (take (length p) (c # s) = p \<or> is_substring p s)"

text \<open>
  \<open>k in data\<close>: key membership for a dict, element membership for a list, substring
  for a string; \<open>None\<close>, a bool and an int are not iterable.
\<close>

fun py_contains :: "json \<Rightarrow> string \<Rightarrow> py_error + bool" where
  "py_contains (JObj kvs) k = Inr (k \<in> fst ` set kvs)"
| "py_contains (JArr xs) k = Inr (JStr k \<in> set xs)"
| "py_contains (JStr s) k = Inr (is_substring k s)"
| "py_contains (JInt n) k = Inl TypeError"
| "py_contains (JBool b) k = Inl TypeError"
| "py_contains JNull k = Inl TypeError"

text \<open>\<open>data[k]\<close> with a string key: only a dict can be indexed by a string.\<close>

fun py_getitem :: "json \<Rightarrow> string \<Rightarrow> py_error + json" where
  "py_getitem (JObj kvs) k = (case map_of kvs k of None \<Rightarrow> Inl KeyError | Some v \<Rightarrow> Inr v)"
| "py_getitem (JArr xs) k = Inl TypeError"
| "py_getitem (JStr s) k = Inl TypeError"
| "py_getitem (JInt n) k = Inl TypeError"
| "py_getitem (JBool b) k = Inl TypeError"
| "py_getitem JNull k = Inl TypeError"

text \<open>\<open>data.get(k, None)\<close>: a method of dict only.\<close>

fun py_get :: "json \<Rightarrow> string \<Rightarrow> py_error + json" where
  "py_get (JObj kvs) k = (case map_of kvs k of None \<Rightarrow> Inr JNull | Some v \<Rightarrow> Inr v)"
| "py_get (JArr xs) k = Inl AttributeError"
| "py_get (JStr s) k = Inl AttributeError"
| "py_get (JInt n) k = Inl AttributeError"
| "py_get (JBool b) k = Inl AttributeError"
| "py_get JNull k = Inl AttributeError"

text \<open>
  \<open>str.isspace\<close> on one code point below 256: U+0009 to U+000D, U+001C to U+0020,
  U+0085 and U+00A0. \<open>str.strip()\<close> drops such characters from both ends.
\<close>

definition isspace :: "char \<Rightarrow> bool" where
  "isspace c =
     (let n = (of_char c :: nat)
      in (9 \<le> n \<and> n \<le> 13) \<or> (28 \<le> n \<and> n \<le> 32) \<or> n = 133 \<or> n = 160)"

definition strip :: "string \<Rightarrow> string" where
  "strip s = rev (dropWhile isspace (rev (dropWhile isspace s)))"

text \<open>\<open>v.strip()\<close>: only a \<open>str\<close> has the method.\<close>

fun py_strip :: "json \<Rightarrow> py_error + string" where
  "py_strip (JStr s) = Inr (strip s)"
| "py_strip (JArr xs) = Inl AttributeError"
| "py_strip (JObj kvs) = Inl AttributeError"
| "py_strip (JInt n) = Inl AttributeError"
| "py_strip (JBool b) = Inl AttributeError"
| "py_strip JNull = Inl AttributeError"

text \<open>
  \<open>timedelta(hours=v)\<close>, in microseconds. An int (a bool counts as 0 or 1) gives
  exactly that many hours, unless the normalised day count leaves
  \<open>-999999999 .. 999999999\<close> (\<open>OverflowError\<close>); any other type is a \<open>TypeError\<close>.
\<close>

definition timedelta_of_hours :: "int \<Rightarrow> py_error + int" where
  "timedelta_of_hours h =
     (let us = h * 3600000000; days = us div 86400000000
      in if days < - 999999999 \<or> 999999999 < days then Inl OverflowError else Inr us)"

fun timedelta_hours :: "json \<Rightarrow> py_error + int" where
  "timedelta_hours (JInt n) = timedelta_of_hours n"
| "timedelta_hours (JBool b) = timedelta_of_hours (if b then 1 else 0)"
| "timedelta_hours (JStr s) = Inl TypeError"
| "timedelta_hours (JArr xs) = Inl TypeError"
| "timedelta_hours (JObj kvs) = Inl TypeError"
| "timedelta_hours JNull = Inl TypeError"

text \<open>\<open>d + delta\<close>: the sum must be a date between year 1 and year 9999.\<close>

definition datetime_add :: "datetime \<Rightarrow> int \<Rightarrow> py_error + datetime" where
  "datetime_add d delta =
     (if d + delta < 0 \<or> datetime_max < d + delta then Inl OverflowError else Inr (d + delta))"

subsection \<open>The store\<close>

record stats =
  clicks :: int
  created_at :: pyval
  expires_at :: pyval

text \<open>
  A dict is an association list in insertion order: \<open>d[k] = v\<close> is \<open>AList.update\<close>
  (in place for a key already there, at the end otherwise), \<open>d.pop(k, None)\<close> is
  \<open>AList.delete\<close>, \<open>k in d\<close> is \<open>map_of d k \<noteq> None\<close>.
\<close>

record store =
  url_mappings :: "(string \<times> string) list"
  url_stats :: "(string \<times> stats) list"

definition empty_store :: store where
  "empty_store = \<lparr>url_mappings = [], url_stats = []\<rparr>"

text \<open>
  \<open>url_stats\<close> is a \<open>defaultdict\<close>: reading a missing key first stores the default
  entry under it.
\<close>

definition default_stats :: stats where
  "default_stats = \<lparr>clicks = 0, created_at = PNone, expires_at = PNone\<rparr>"

definition url_stats_getitem ::
  "(string \<times> stats) list \<Rightarrow> string \<Rightarrow> stats \<times> (string \<times> stats) list" where
  "url_stats_getitem d k =
     (case map_of d k of
        Some st \<Rightarrow> (st, d)
      | None \<Rightarrow> (default_stats, AList.update k default_stats d))"

subsection \<open>generate\_short\_code and is\_valid\_url\<close>

text \<open>
  \<open>generate_short_code\<close> draws six characters from the 62 letters and digits. The
  draws of one request are an argument of \<open>shorten_url\<close>, in the order the calls
  return them; \<open>is_short_code\<close> is the shape every draw has.
\<close>

definition code_chars :: string where
  "code_chars =
     ''abcdefghijklmnopqrstuvwxyz'' @ ''ABCDEFGHIJKLMNOPQRSTUVWXYZ'' @ ''0123456789''"

definition is_short_code :: "string \<Rightarrow> bool" where
  "is_short_code c = (length c = 6 \<and> list_all (\<lambda>x. x \<in> set code_chars) c)"

text \<open>
  \<open>urlparse\<close> belongs to the standard library; of its result the source reads
  \<open>scheme\<close> and \<open>netloc\<close>. It is an argument of the model: \<open>None\<close> is a raised
  \<open>ValueError\<close>, the one exception \<open>is_valid_url\<close> catches.
\<close>

record parse_result =
  scheme :: string
  netloc :: string

type_synonym url_parser = "string \<Rightarrow> parse_result option"

definition is_valid_url :: "url_parser \<Rightarrow> string \<Rightarrow> bool" where
  "is_valid_url urlparse url =
     (case urlparse url of
        None \<Rightarrow> False
      | Some result \<Rightarrow> (scheme result = ''http'' \<or> scheme result = ''https'') \<and> netloc result \<noteq> [])"

subsection \<open>cleanup\_expired\_urls\<close>

text \<open>
  Lines 32 and 33: the list comprehension walks \<open>url_stats.items()\<close> in order and keeps
  the codes whose \<open>expires_at\<close> is true and \<open>< now\<close>. The comparison is evaluated for
  every entry with a true \<open>expires_at\<close>; the first one that raises ends the
  comprehension, before anything is removed.
\<close>

fun expired_codes :: "datetime \<Rightarrow> (string \<times> stats) list \<Rightarrow> py_error + string list" where
  "expired_codes now [] = Inr []"
| "expired_codes now ((code, st) # rest) =
     (if truthy (expires_at st) then
        (case py_lt (expires_at st) now of
           Inl e \<Rightarrow> Inl e
         | Inr b \<Rightarrow>
             (case expired_codes now rest of
                Inl e \<Rightarrow> Inl e
              | Inr codes \<Rightarrow> Inr (if b then code # codes else codes)))
      else expired_codes now rest)"

text \<open>Lines 36 to 38: each expired code is popped from both dictionaries.\<close>

fun pop_codes :: "string list \<Rightarrow> store \<Rightarrow> store" where
  "pop_codes [] s = s"
| "pop_codes (code # codes) s =
     pop_codes codes
       (s\<lparr>url_mappings := AList.delete code (url_mappings s),
          url_stats := AList.delete code (url_stats s)\<rparr>)"

text \<open>
  The function has no \<open>return\<close>: a completed call yields \<open>None\<close>, the unit value here.
\<close>

definition cleanup_expired_urls :: "datetime \<Rightarrow> store \<Rightarrow> (py_error + unit) \<times> store" where
  "cleanup_expired_urls now s =
     (case expired_codes now (url_stats s) of
        Inl e \<Rightarrow> (Inl e, s)
      | Inr codes \<Rightarrow> (Inr (), pop_codes codes s))"

subsection \<open>The view functions\<close>

text \<open>
  The responses, by status code. \<open>short_url\<close> (the request's host URL followed by
  the code) is left out of \<open>Created\<close> and \<open>UrlList\<close>: it is computed from the code
  and the request alone.
\<close>

datatype response =
    Created string string pyval
  | BadRequest string
  | NotFound
  | Redirect string
  | StatsOK string string int pyval pyval bool
  | UrlList nat "(string \<times> int) list"

text \<open>
  Lines 80 to 84: the first draw, then \<open>while short_code in url_mappings\<close> a new one.
  The draws are consumed from the front; \<open>None\<close> says that every supplied draw was
  taken and the loop had not ended.
\<close>

fun pick_code :: "string list \<Rightarrow> (string \<times> string) list \<Rightarrow> string option" where
  "pick_code [] m = None"
| "pick_code (c # cs) m = (if map_of m c \<noteq> None then pick_code cs m else Some c)"

text \<open>
  Line 88: \<open>created_at + timedelta(hours=ttl_hours) if ttl_hours else None\<close>, then
  line 93: \<open>expires_at.isoformat() if expires_at else None\<close>.
\<close>

definition make_expires_at :: "datetime \<Rightarrow> json \<Rightarrow> py_error + pyval" where
  "make_expires_at created ttl_hours =
     (if json_truthy ttl_hours then
        (case timedelta_hours ttl_hours of
           Inl e \<Rightarrow> Inl e
         | Inr delta \<Rightarrow>
             (case datetime_add created delta of
                Inl e \<Rightarrow> Inl e
              | Inr d \<Rightarrow> Inr (IsoStr d)))
      else Inr PNone)"

definition shorten_url ::
  "url_parser \<Rightarrow> datetime \<Rightarrow> string list \<Rightarrow> json \<Rightarrow> store \<Rightarrow>
     ((py_error + response) \<times> store) option" where
  "shorten_url urlparse now draws data s =
     (if \<not> json_truthy data then Some (Inr (BadRequest ''URL is required''), s)
      else case py_contains data ''url'' of
        Inl e \<Rightarrow> Some (Inl e, s)
      | Inr False \<Rightarrow> Some (Inr (BadRequest ''URL is required''), s)
      | Inr True \<Rightarrow>
         (case py_getitem data ''url'' of
            Inl e \<Rightarrow> Some (Inl e, s)
          | Inr v \<Rightarrow>
             (case py_strip v of
                Inl e \<Rightarrow> Some (Inl e, s)
              | Inr original_url \<Rightarrow>
                 (case py_get data ''ttl_hours'' of
                    Inl e \<Rightarrow> Some (Inl e, s)
                  | Inr ttl_hours \<Rightarrow>
                     if \<not> is_valid_url urlparse original_url
                     then Some (Inr (BadRequest
                            ''Invalid URL. Must include http:// or https:// and a domain''), s)
                     else
                       (case pick_code draws (url_mappings s) of
                          None \<Rightarrow> None
                        | Some short_code \<Rightarrow>
                           (case make_expires_at now ttl_hours of
                              Inl e \<Rightarrow> Some (Inl e, s)
                            | Inr exp \<Rightarrow>
                               Some (Inr (Created short_code original_url exp),
                                 s\<lparr>url_mappings :=
                                      AList.update short_code original_url (url_mappings s),
                                    url_stats :=
                                      AList.update short_code
                                        \<lparr>clicks = 0, created_at = IsoStr now, expires_at = exp\<rparr>
                                        (url_stats s)\<rparr>)))))))"

definition redirect_to_url :: "string \<Rightarrow> store \<Rightarrow> (py_error + response) \<times> store" where
  "redirect_to_url short_code s =
     (case map_of (url_mappings s) short_code of
        None \<Rightarrow> (Inr NotFound, s)
      | Some target \<Rightarrow>
          (let (st, d) = url_stats_getitem (url_stats s) short_code
           in (Inr (Redirect target),
               s\<lparr>url_stats := AList.update short_code (st\<lparr>clicks := clicks st + 1\<rparr>) d\<rparr>)))"

text \<open>
  Line 128: \<open>not (stats['expires_at'] and fromisoformat(stats['expires_at']) < utcnow())\<close>;
  \<open>and\<close> does not evaluate its right side when the left is false.
\<close>

definition is_active :: "datetime \<Rightarrow> pyval \<Rightarrow> py_error + bool" where
  "is_active now exp =
     (if truthy exp then
        (case fromisoformat exp of Inl e \<Rightarrow> Inl e | Inr d \<Rightarrow> Inr (\<not> d < now))
      else Inr True)"

definition get_stats :: "datetime \<Rightarrow> string \<Rightarrow> store \<Rightarrow> (py_error + response) \<times> store" where
  "get_stats now short_code s =
     (case map_of (url_mappings s) short_code of
        None \<Rightarrow> (Inr NotFound, s)
      | Some target \<Rightarrow>
          (let (st, d) = url_stats_getitem (url_stats s) short_code;
               s' = s\<lparr>url_stats := d\<rparr>
           in case is_active now (expires_at st) of
                Inl e \<Rightarrow> (Inl e, s')
              | Inr a \<Rightarrow>
                  (Inr (StatsOK short_code target (clicks st) (created_at st) (expires_at st) a),
                   s')))"

text \<open>
  Lines 136 to 140: one entry per key of \<open>url_mappings\<close>, each reading
  \<open>url_stats[code]\<close> through the \<open>defaultdict\<close>.
\<close>

fun list_entries ::
  "(string \<times> string) list \<Rightarrow> (string \<times> stats) list \<Rightarrow>
     (string \<times> int) list \<times> (string \<times> stats) list" where
  "list_entries [] d = ([], d)"
| "list_entries ((code, target) # m) d =
     (let (st, d1) = url_stats_getitem d code;
          (entries, d2) = list_entries m d1
      in ((code, clicks st) # entries, d2))"

definition list_urls :: "store \<Rightarrow> (py_error + response) \<times> store" where
  "list_urls s =
     (let (entries, d) = list_entries (url_mappings s) (url_stats s)
      in (Inr (UrlList (length (url_mappings s)) entries), s\<lparr>url_stats := d\<rparr>))"

subsection \<open>One request\<close>

text \<open>
  Flask runs the \<open>before_request\<close> hook, which is \<open>cleanup_expired_urls\<close>, and then the
  view function of the route; an exception that escapes either is answered with
  status 500 and is the \<open>Inl\<close> outcome here. \<open>t0\<close> is the clock read by the hook,
  \<open>t1\<close> the clock read by the view function.
\<close>

datatype request = PostShorten json | GetCode string | GetStats string | GetUrls

definition handle_request ::
  "url_parser \<Rightarrow> datetime \<Rightarrow> datetime \<Rightarrow> string list \<Rightarrow> request \<Rightarrow> store \<Rightarrow>
     ((py_error + response) \<times> store) option" where
  "handle_request urlparse t0 t1 draws req s =
     (case cleanup_expired_urls t0 s of
        (Inl e, s0) \<Rightarrow> Some (Inl e, s0)
      | (Inr u, s0) \<Rightarrow>
          (case req of
             PostShorten data \<Rightarrow> shorten_url urlparse t1 draws data s0
           | GetCode code \<Rightarrow> Some (redirect_to_url code s0)
           | GetStats code \<Rightarrow> Some (get_stats t1 code s0)
           | GetUrls \<Rightarrow> Some (list_urls s0)))"

subsection \<open>A concrete urlparse for evaluation\<close>

text \<open>
  The part of \<open>urllib.parse.urlsplit\<close> that yields \<open>scheme\<close> and \<open>netloc\<close>: the text
  before the first colon is the scheme when it is not empty and consists of scheme
  characters; a rest that starts with two slashes gives the netloc, up to the first
  slash, question mark or hash; a netloc with one square bracket but not the other is a
  \<open>ValueError\<close>. The theorems below hold for every parser; this one evaluates them.
\<close>

definition scheme_char :: "char \<Rightarrow> bool" where
  "scheme_char c = (c \<in> set code_chars \<or> c = CHR ''+'' \<or> c = CHR ''-'' \<or> c = CHR ''.'')"

definition lower :: "char \<Rightarrow> char" where
  "lower c =
     (let n = (of_char c :: nat) in if 65 \<le> n \<and> n \<le> 90 then char_of (n + 32) else c)"

definition split_scheme :: "string \<Rightarrow> string \<times> string" where
  "split_scheme url =
     (let pre = takeWhile (\<lambda>c. c \<noteq> CHR '':'') url
      in if pre \<noteq> [] \<and> length pre < length url \<and> list_all scheme_char pre
         then (map lower pre, drop (Suc (length pre)) url)
         else ([], url))"

definition urlparse_core :: url_parser where
  "urlparse_core url =
     (let (sch, rest) = split_scheme url;
          nl = (if take 2 rest = ''//''
                then takeWhile (\<lambda>c. c \<noteq> CHR ''/'' \<and> c \<noteq> CHR ''?'' \<and> c \<noteq> CHR ''#'') (drop 2 rest)
                else [])
      in if (CHR ''['' \<in> set nl) \<noteq> (CHR '']'' \<in> set nl) then None
         else Some \<lparr>scheme = sch, netloc = nl\<rparr>)"

section \<open>Lemmas on the dictionaries and the sweep\<close>

lemma map_of_Some_key: "map_of d k = Some v \<Longrightarrow> k \<in> fst ` set d"
  by (metis domI dom_map_of_conv_image_fst)

lemma url_stats_getitem_keys:
  "fst ` set (snd (url_stats_getitem d k)) = insert k (fst ` set d)"
  by (auto simp: url_stats_getitem_def AList.dom_update map_of_Some_key split: option.splits)

lemma delete_filter: "AList.delete k d = filter (\<lambda>(c, v). c \<noteq> k) d"
  by (auto simp: AList.delete_eq intro: filter_cong)

lemma pop_codes_url_stats:
  "url_stats (pop_codes codes s) = filter (\<lambda>(c, st). c \<notin> set codes) (url_stats s)"
  by (induction codes arbitrary: s) (auto simp: delete_filter intro: filter_cong)

lemma pop_codes_url_mappings:
  "url_mappings (pop_codes codes s) = filter (\<lambda>(c, t). c \<notin> set codes) (url_mappings s)"
  by (induction codes arbitrary: s) (auto simp: delete_filter intro: filter_cong)

lemma expired_codes_set:
  "expired_codes now d = Inr codes \<Longrightarrow>
     set codes = {c. \<exists>st e. (c, st) \<in> set d \<and> expires_at st = Datetime e \<and> e < now}"
proof (induction d arbitrary: codes)
  case Nil
  then show ?case by simp
next
  case (Cons p d)
  obtain c st where p: "p = (c, st)" by (cases p)
  show ?case
  proof (cases "expires_at st")
    case PNone
    with Cons p show ?thesis by auto
  next
    case (IsoStr e)
    with Cons p show ?thesis by simp
  next
    case (Datetime e)
    with Cons.prems p obtain cs where cs: "expired_codes now d = Inr cs"
      and codes: "codes = (if e < now then c # cs else cs)"
      by (auto split: sum.splits)
    from Cons.IH[OF cs] codes p Datetime show ?thesis by auto
  qed
qed

lemma expired_codes_mem_IsoStr:
  "(c, st) \<in> set d \<Longrightarrow> expires_at st = IsoStr e \<Longrightarrow> expired_codes now d = Inl TypeError"
proof (induction d)
  case Nil
  then show ?case by simp
next
  case (Cons p d)
  obtain c' st' where p: "p = (c', st')" by (cases p)
  show ?case
  proof (cases "(c, st) = p")
    case True
    with Cons.prems p show ?thesis by simp
  next
    case False
    with Cons have ih: "expired_codes now d = Inl TypeError" by simp
    show ?thesis using ih p by (cases "expires_at st'") (auto split: sum.splits)
  qed
qed

lemma expired_codes_no_expiry:
  "\<forall>(c, st) \<in> set d. expires_at st = PNone \<Longrightarrow> expired_codes now d = Inr []"
  by (induction d) auto

lemma expired_codes_returns_no_IsoStr:
  "expired_codes now d = Inr codes \<Longrightarrow> (c, st) \<in> set d \<Longrightarrow> expires_at st \<noteq> IsoStr e"
  using expired_codes_mem_IsoStr by fastforce

lemma filter_keys_diff:
  "fst ` set (filter (\<lambda>(c, v). c \<notin> A) d) = fst ` set d - A"
  by (induction d) auto

lemma pop_codes_keys:
  "fst ` set (url_mappings (pop_codes codes s)) = fst ` set (url_mappings s) - set codes"
  "fst ` set (url_stats (pop_codes codes s)) = fst ` set (url_stats s) - set codes"
  by (simp_all only: pop_codes_url_mappings pop_codes_url_stats filter_keys_diff)

lemma pop_codes_distinct:
  "distinct (map fst (url_mappings s)) \<Longrightarrow> distinct (map fst (url_mappings (pop_codes codes s)))"
  by (simp add: pop_codes_url_mappings distinct_map_filter)

lemma cleanup_keys:
  assumes "fst ` set (url_mappings s) = fst ` set (url_stats s)"
  shows "fst ` set (url_mappings (snd (cleanup_expired_urls now s)))
       = fst ` set (url_stats (snd (cleanup_expired_urls now s)))"
  using assms by (simp add: cleanup_expired_urls_def pop_codes_keys split: sum.splits)

lemma cleanup_distinct:
  "distinct (map fst (url_mappings s)) \<Longrightarrow>
   distinct (map fst (url_mappings (snd (cleanup_expired_urls now s))))"
  by (simp add: cleanup_expired_urls_def pop_codes_distinct split: sum.splits)

lemma shorten_url_cases:
  assumes "shorten_url P now draws data s = Some (r, s')"
  shows "s' = s \<or>
    (\<exists>c u exp. r = Inr (Created c u exp) \<and> pick_code draws (url_mappings s) = Some c
       \<and> s' = s\<lparr>url_mappings := AList.update c u (url_mappings s),
                url_stats := AList.update c \<lparr>clicks = 0, created_at = IsoStr now, expires_at = exp\<rparr> (url_stats s)\<rparr>)"
  using assms
  by (auto simp: shorten_url_def split: if_splits sum.splits bool.splits option.splits)

lemma pick_code_fresh: "pick_code draws m = Some c \<Longrightarrow> map_of m c = None"
  by (induction draws) (auto split: if_splits)

lemma pick_code_mem: "pick_code draws m = Some c \<Longrightarrow> c \<in> set draws"
  by (induction draws) (auto split: if_splits)

lemma pick_code_first:
  "pick_code draws m = Some c \<longleftrightarrow>
     (\<exists>pre post. draws = pre @ c # post \<and> map_of m c = None \<and> (\<forall>x \<in> set pre. map_of m x \<noteq> None))"
proof (induction draws)
  case Nil
  then show ?case by simp
next
  case (Cons d draws)
  show ?case
  proof (cases "map_of m d = None")
    case True
    have "(\<exists>pre post. d # draws = pre @ c # post \<and> map_of m c = None \<and> (\<forall>x\<in>set pre. map_of m x \<noteq> None)) \<longleftrightarrow> d = c"
    proof
      assume "\<exists>pre post. d # draws = pre @ c # post \<and> map_of m c = None \<and> (\<forall>x\<in>set pre. map_of m x \<noteq> None)"
      then obtain pre post where e: "d # draws = pre @ c # post" and a: "\<forall>x\<in>set pre. map_of m x \<noteq> None" by blast
      show "d = c" using e a True by (cases pre) auto
    next
      assume "d = c"
      then have "d # draws = [] @ c # draws" by simp
      with True \<open>d = c\<close> show "\<exists>pre post. d # draws = pre @ c # post \<and> map_of m c = None \<and> (\<forall>x\<in>set pre. map_of m x \<noteq> None)"
        by (metis empty_iff list.set(1))
    qed
    with True show ?thesis by auto
  next
    case False
    have "(\<exists>pre post. d # draws = pre @ c # post \<and> map_of m c = None \<and> (\<forall>x\<in>set pre. map_of m x \<noteq> None))
      \<longleftrightarrow> (\<exists>pre post. draws = pre @ c # post \<and> map_of m c = None \<and> (\<forall>x\<in>set pre. map_of m x \<noteq> None))"
      (is "?L \<longleftrightarrow> ?R")
    proof
      assume ?L
      then obtain pre post where e: "d # draws = pre @ c # post" and n: "map_of m c = None"
        and a: "\<forall>x\<in>set pre. map_of m x \<noteq> None" by blast
      from e n False obtain pre' where "pre = d # pre'" by (cases pre) auto
      with e a n show ?R by auto
    next
      assume ?R
      then obtain pre post where e: "draws = pre @ c # post" and n: "map_of m c = None"
        and a: "\<forall>x\<in>set pre. map_of m x \<noteq> None" by blast
      have "d # draws = (d # pre) @ c # post" using e by simp
      moreover have "\<forall>x\<in>set (d # pre). map_of m x \<noteq> None" using a False by simp
      ultimately show ?L using n by blast
    qed
    with False Cons.IH show ?thesis by simp
  qed
qed

lemma shorten_url_keys:
  assumes "fst ` set (url_mappings s) = fst ` set (url_stats s)"
    and "shorten_url P now draws data s = Some (r, s')"
  shows "fst ` set (url_mappings s') = fst ` set (url_stats s')"
proof -
  from shorten_url_cases[OF assms(2)] show ?thesis
  proof
    assume "s' = s"
    with assms(1) show ?thesis by simp
  next
    assume "\<exists>c u exp. r = Inr (Created c u exp) \<and> pick_code draws (url_mappings s) = Some c
       \<and> s' = s\<lparr>url_mappings := AList.update c u (url_mappings s),
                url_stats := AList.update c \<lparr>clicks = 0, created_at = IsoStr now, expires_at = exp\<rparr> (url_stats s)\<rparr>"
    then obtain c u exp where
      "s' = s\<lparr>url_mappings := AList.update c u (url_mappings s),
                url_stats := AList.update c \<lparr>clicks = 0, created_at = IsoStr now, expires_at = exp\<rparr> (url_stats s)\<rparr>"
      by blast
    then show ?thesis using assms(1) by (simp add: AList.dom_update)
  qed
qed

lemma shorten_url_distinct:
  assumes "distinct (map fst (url_mappings s))"
    and "shorten_url P now draws data s = Some (r, s')"
  shows "distinct (map fst (url_mappings s'))"
  using shorten_url_cases[OF assms(2)] assms(1) by (auto simp: AList.distinct_update)

lemma redirect_to_url_keys:
  assumes "fst ` set (url_mappings s) = fst ` set (url_stats s)"
  shows "fst ` set (url_mappings (snd (redirect_to_url code s)))
       = fst ` set (url_stats (snd (redirect_to_url code s)))"
  using assms
  by (auto simp: redirect_to_url_def url_stats_getitem_def AList.dom_update map_of_Some_key
      split: option.splits)

lemma redirect_to_url_mappings [simp]:
  "url_mappings (snd (redirect_to_url code s)) = url_mappings s"
  by (auto simp: redirect_to_url_def split: option.splits prod.splits)

lemma get_stats_keys:
  assumes "fst ` set (url_mappings s) = fst ` set (url_stats s)"
  shows "fst ` set (url_mappings (snd (get_stats now code s)))
       = fst ` set (url_stats (snd (get_stats now code s)))"
  using assms
  by (auto simp: get_stats_def Let_def url_stats_getitem_def AList.dom_update map_of_Some_key
      split: option.splits sum.splits)

lemma get_stats_mappings [simp]:
  "url_mappings (snd (get_stats now code s)) = url_mappings s"
  by (auto simp: get_stats_def Let_def split: option.splits prod.splits sum.splits)

lemma list_entries_keys:
  "fst ` set (snd (list_entries m d)) = fst ` set m \<union> fst ` set d"
proof (induction m arbitrary: d)
  case Nil
  then show ?case by simp
next
  case (Cons p m)
  obtain c t where p: "p = (c, t)" by (cases p)
  obtain st d1 where g: "url_stats_getitem d c = (st, d1)" by (cases "url_stats_getitem d c")
  have k: "fst ` set d1 = insert c (fst ` set d)"
    using url_stats_getitem_keys[of d c] by (simp only: g snd_conv)
  obtain es d2 where l: "list_entries m d1 = (es, d2)" by (cases "list_entries m d1")
  have "fst ` set d2 = fst ` set m \<union> fst ` set d1"
    using Cons.IH[of d1] by (simp only: l snd_conv)
  also have "\<dots> = fst ` set (p # m) \<union> fst ` set d"
    by (simp only: k p list.set image_insert fst_conv Un_insert_left Un_insert_right)
  finally have e: "fst ` set d2 = fst ` set (p # m) \<union> fst ` set d" .
  have "snd (list_entries (p # m) d) = d2"
    by (simp add: p g l)
  then show ?case by (simp only: e)
qed

lemma list_urls_keys:
  assumes "fst ` set (url_mappings s) = fst ` set (url_stats s)"
  shows "fst ` set (url_mappings (snd (list_urls s))) = fst ` set (url_stats (snd (list_urls s)))"
proof -
  obtain es d where l: "list_entries (url_mappings s) (url_stats s) = (es, d)"
    by (cases "list_entries (url_mappings s) (url_stats s)")
  have "fst ` set d = fst ` set (url_mappings s) \<union> fst ` set (url_stats s)"
    using list_entries_keys[of "url_mappings s" "url_stats s"] l by simp
  also have "\<dots> = fst ` set (url_mappings s)"
    by (simp only: assms[symmetric] Un_absorb)
  finally have "fst ` set d = fst ` set (url_mappings s)" .
  moreover have "snd (list_urls s) = s\<lparr>url_stats := d\<rparr>"
    using l by (simp add: list_urls_def)
  ultimately show ?thesis by simp
qed

lemma list_urls_mappings [simp]: "url_mappings (snd (list_urls s)) = url_mappings s"
  by (auto simp: list_urls_def split: prod.splits)

lemma cleanup_raises_on_iso:
  assumes "(c, st) \<in> set (url_stats s)" and "expires_at st = IsoStr e"
  shows "cleanup_expired_urls now s = (Inl TypeError, s)"
  using expired_codes_mem_IsoStr[OF assms] by (simp add: cleanup_expired_urls_def)

lemma handle_request_raises_on_iso:
  assumes "(c, st) \<in> set (url_stats s)" and "expires_at st = IsoStr e"
  shows "handle_request P t0 t1 draws req s = Some (Inl TypeError, s)"
  using cleanup_raises_on_iso[OF assms] by (simp add: handle_request_def)

text \<open>
  \<open>shorten_url\<close> and the \<open>defaultdict\<close> store \<open>None\<close> or an ISO string under
  \<open>expires_at\<close>, never a datetime. On such a store a sweep that completes has removed
  nothing.
\<close>

lemma update_set_subset: "set (AList.update k v al) \<subseteq> insert (k, v) (set al)"
  by (induction al) auto

lemma shorten_url_stores_no_datetime:
  assumes "shorten_url P now draws data s = Some (r, s')"
    and "\<forall>(c, st) \<in> set (url_stats s). \<forall>d. expires_at st \<noteq> Datetime d"
  shows "\<forall>(c, st) \<in> set (url_stats s'). \<forall>d. expires_at st \<noteq> Datetime d"
proof -
  from shorten_url_cases[OF assms(1)] show ?thesis
  proof
    assume "s' = s"
    with assms(2) show ?thesis by simp
  next
    assume "\<exists>c u exp. r = Inr (Created c u exp) \<and> pick_code draws (url_mappings s) = Some c
       \<and> s' = s\<lparr>url_mappings := AList.update c u (url_mappings s),
                url_stats := AList.update c \<lparr>clicks = 0, created_at = IsoStr now, expires_at = exp\<rparr> (url_stats s)\<rparr>"
    then obtain c u exp where r: "r = Inr (Created c u exp)"
      and s': "s' = s\<lparr>url_mappings := AList.update c u (url_mappings s),
                url_stats := AList.update c \<lparr>clicks = 0, created_at = IsoStr now, expires_at = exp\<rparr> (url_stats s)\<rparr>"
      by blast
    from assms(1) r have e: "\<forall>d. exp \<noteq> Datetime d"
      by (auto simp: shorten_url_def make_expires_at_def
          split: if_splits sum.splits bool.splits option.splits)
    have "set (AList.update c \<lparr>clicks = 0, created_at = IsoStr now, expires_at = exp\<rparr> (url_stats s))
        \<subseteq> insert (c, \<lparr>clicks = 0, created_at = IsoStr now, expires_at = exp\<rparr>) (set (url_stats s))"
      by (rule update_set_subset)
    then have "\<forall>x \<in> set (url_stats s'). x = (c, \<lparr>clicks = 0, created_at = IsoStr now, expires_at = exp\<rparr>)
        \<or> x \<in> set (url_stats s)"
      by (auto simp: s')
    with assms(2) e show ?thesis by fastforce
  qed
qed

lemma cleanup_completes_unchanged:
  assumes "\<forall>(c, st) \<in> set (url_stats s). \<forall>d. expires_at st \<noteq> Datetime d"
    and "cleanup_expired_urls now s = (Inr u, s')"
  shows "s' = s"
proof -
  from assms(2) obtain codes where c: "expired_codes now (url_stats s) = Inr codes"
    and s': "s' = pop_codes codes s"
    by (auto simp: cleanup_expired_urls_def split: sum.splits)
  have "set codes = {}"
    unfolding expired_codes_set[OF c] using assms(1) by auto
  then have "codes = []" by simp
  with s' show ?thesis by simp
qed

section \<open>Lemmas on shorten\_url and whole requests\<close>

lemma handle_request_keys:
  assumes k: "fst ` set (url_mappings s) = fst ` set (url_stats s)"
    and h: "handle_request P t0 t1 draws req s = Some (r, s')"
  shows "fst ` set (url_mappings s') = fst ` set (url_stats s')"
proof -
  obtain r0 s0 where c: "cleanup_expired_urls t0 s = (r0, s0)"
    by (cases "cleanup_expired_urls t0 s")
  have k0: "fst ` set (url_mappings s0) = fst ` set (url_stats s0)"
    using cleanup_keys[OF k, of t0] by (simp only: c snd_conv)
  show ?thesis
  proof (cases r0)
    case (Inl e)
    with h c have "s' = s0" by (simp add: handle_request_def)
    with k0 show ?thesis by simp
  next
    case (Inr u)
    show ?thesis
    proof (cases req)
      case (PostShorten data)
      with h c Inr have "shorten_url P t1 draws data s0 = Some (r, s')"
        by (simp add: handle_request_def)
      then show ?thesis by (rule shorten_url_keys[OF k0])
    next
      case (GetCode code)
      with h c Inr have "s' = snd (redirect_to_url code s0)"
        by (auto simp: handle_request_def)
      then show ?thesis using redirect_to_url_keys[OF k0, of code] by (simp only:)
    next
      case (GetStats code)
      with h c Inr have "s' = snd (get_stats t1 code s0)"
        by (auto simp: handle_request_def)
      then show ?thesis using get_stats_keys[OF k0, of t1 code] by (simp only:)
    next
      case GetUrls
      with h c Inr have "s' = snd (list_urls s0)"
        by (auto simp: handle_request_def)
      then show ?thesis using list_urls_keys[OF k0] by (simp only:)
    qed
  qed
qed

lemma handle_request_distinct:
  assumes k: "distinct (map fst (url_mappings s))"
    and h: "handle_request P t0 t1 draws req s = Some (r, s')"
  shows "distinct (map fst (url_mappings s'))"
proof -
  obtain r0 s0 where c: "cleanup_expired_urls t0 s = (r0, s0)"
    by (cases "cleanup_expired_urls t0 s")
  have k0: "distinct (map fst (url_mappings s0))"
    using cleanup_distinct[OF k, of t0] by (simp only: c snd_conv)
  show ?thesis
  proof (cases r0)
    case (Inl e)
    with h c have "s' = s0" by (simp add: handle_request_def)
    with k0 show ?thesis by simp
  next
    case (Inr u)
    show ?thesis
    proof (cases req)
      case (PostShorten data)
      with h c Inr have "shorten_url P t1 draws data s0 = Some (r, s')"
        by (simp add: handle_request_def)
      then show ?thesis by (rule shorten_url_distinct[OF k0])
    next
      case (GetCode code)
      with h c Inr have "s' = snd (redirect_to_url code s0)"
        by (auto simp: handle_request_def)
      then show ?thesis using k0 by simp
    next
      case (GetStats code)
      with h c Inr have "s' = snd (get_stats t1 code s0)"
        by (auto simp: handle_request_def)
      then show ?thesis using k0 by simp
    next
      case GetUrls
      with h c Inr have "s' = snd (list_urls s0)"
        by (auto simp: handle_request_def)
      then show ?thesis using k0 by simp
    qed
  qed
qed

lemma update_fresh: "map_of al k = None \<Longrightarrow> AList.update k v al = al @ [(k, v)]"
  by (induction al) (auto split: if_splits)

lemma shorten_url_created:
  assumes "shorten_url P now draws data s = Some (Inr (Created c u exp), s')"
  shows "pick_code draws (url_mappings s) = Some c
    \<and> s' = s\<lparr>url_mappings := AList.update c u (url_mappings s),
             url_stats := AList.update c \<lparr>clicks = 0, created_at = IsoStr now, expires_at = exp\<rparr> (url_stats s)\<rparr>"
  using assms
  by (auto simp: shorten_url_def split: if_splits sum.splits bool.splits option.splits)

lemma pick_code_Some_if_free:
  "\<exists>x \<in> set draws. map_of m x = None \<Longrightarrow> pick_code draws m \<noteq> None"
  by (induction draws) auto

lemma strip_decomp:
  "\<exists>pre post. raw = pre @ strip raw @ post \<and> list_all isspace pre \<and> list_all isspace post"
proof -
  let ?b = "dropWhile isspace raw"
  have 1: "raw = takeWhile isspace raw @ ?b" by simp
  have "rev ?b = takeWhile isspace (rev ?b) @ dropWhile isspace (rev ?b)" by simp
  then have "rev (rev ?b) = rev (takeWhile isspace (rev ?b) @ dropWhile isspace (rev ?b))"
    by (simp only:)
  then have 2: "?b = strip raw @ rev (takeWhile isspace (rev ?b))"
    by (simp only: rev_rev_ident rev_append strip_def)
  have 3: "raw = takeWhile isspace raw @ strip raw @ rev (takeWhile isspace (rev ?b))"
    using 1 2 by metis
  have 4: "list_all isspace (takeWhile isspace raw)"
    by (simp add: list_all_iff) (meson set_takeWhileD)
  have 5: "list_all isspace (rev (takeWhile isspace (rev ?b)))"
    by (simp add: list_all_iff) (meson set_takeWhileD)
  from 3 4 5 show ?thesis by blast
qed

lemma strip_ends:
  assumes "strip raw \<noteq> []"
  shows "\<not> isspace (hd (strip raw)) \<and> \<not> isspace (last (strip raw))"
proof -
  let ?b = "dropWhile isspace raw"
  let ?d = "dropWhile isspace (rev ?b)"
  have s: "strip raw = rev ?d" by (simp add: strip_def)
  with assms have d: "?d \<noteq> []" by simp
  then have "\<not> isspace (hd ?d)" by (rule hd_dropWhile)
  then have l: "\<not> isspace (last (strip raw))" using d by (simp add: s last_rev)
  have "rev ?b = takeWhile isspace (rev ?b) @ ?d" by simp
  then have "rev (rev ?b) = rev (takeWhile isspace (rev ?b) @ ?d)" by (simp only:)
  then have b: "?b = strip raw @ rev (takeWhile isspace (rev ?b))"
    by (simp only: rev_rev_ident rev_append strip_def)
  with assms have bne: "?b \<noteq> []" by (metis append_is_Nil_conv)
  then have "\<not> isspace (hd ?b)" by (rule hd_dropWhile)
  moreover have "hd ?b = hd (strip raw)" using b assms by (metis hd_append2)
  ultimately show ?thesis using l by simp
qed

lemma shorten_url_obj_str:
  assumes "map_of kvs ''url'' = Some (JStr raw)"
  shows "shorten_url P now draws (JObj kvs) s =
    (if \<not> is_valid_url P (strip raw)
     then Some (Inr (BadRequest ''Invalid URL. Must include http:// or https:// and a domain''), s)
     else case pick_code draws (url_mappings s) of
        None \<Rightarrow> None
      | Some c \<Rightarrow>
         (case make_expires_at now (case map_of kvs ''ttl_hours'' of None \<Rightarrow> JNull | Some v \<Rightarrow> v) of
            Inl e \<Rightarrow> Some (Inl e, s)
          | Inr exp \<Rightarrow>
             Some (Inr (Created c (strip raw) exp),
               s\<lparr>url_mappings := AList.update c (strip raw) (url_mappings s),
                 url_stats := AList.update c
                    \<lparr>clicks = 0, created_at = IsoStr now, expires_at = exp\<rparr> (url_stats s)\<rparr>)))"
proof -
  from assms have ne: "kvs \<noteq> []" by auto
  from assms have k: "''url'' \<in> fst ` set kvs" by (rule map_of_Some_key)
  show ?thesis
    by (cases "map_of kvs ''ttl_hours''")
       (simp_all add: shorten_url_def ne k assms split: option.splits sum.splits)
qed

lemma shorten_url_obj_missing:
  assumes "kvs = [] \<or> map_of kvs ''url'' = None"
  shows "shorten_url P now draws (JObj kvs) s = Some (Inr (BadRequest ''URL is required''), s)"
proof (cases "kvs = []")
  case True
  then show ?thesis by (simp add: shorten_url_def)
next
  case False
  with assms have "map_of kvs ''url'' = None" by simp
  then have "''url'' \<notin> fst ` set kvs" by (simp add: map_of_eq_None_iff)
  with False show ?thesis by (simp add: shorten_url_def)
qed

lemma shorten_url_obj_not_str:
  assumes "map_of kvs ''url'' = Some v" and "\<forall>raw. v \<noteq> JStr raw"
  shows "shorten_url P now draws (JObj kvs) s = Some (Inl AttributeError, s)"
proof -
  from assms have ne: "kvs \<noteq> []" by auto
  from assms(1) have k: "''url'' \<in> fst ` set kvs" by (rule map_of_Some_key)
  from assms(2) have "py_strip v = Inl AttributeError" by (cases v) auto
  then show ?thesis by (simp add: shorten_url_def ne k assms(1))
qed

lemma shorten_url_rejection_unchanged:
  assumes "shorten_url P now draws data s = Some (Inr (BadRequest m), s')"
  shows "s' = s"
  using shorten_url_cases[OF assms] by auto

lemma make_expires_at_none [simp]:
  "make_expires_at now JNull = Inr PNone" "make_expires_at now (JInt 0) = Inr PNone"
  by (simp_all add: make_expires_at_def)

lemma make_expires_at_in_range:
  assumes "n \<noteq> 0" and "0 \<le> now" and "now \<le> datetime_max"
    and "0 \<le> now + n * 3600000000" and "now + n * 3600000000 \<le> datetime_max"
  shows "make_expires_at now (JInt n) = Inr (IsoStr (now + n * 3600000000))"
proof -
  let ?us = "n * 3600000000"
  have lo: "- 315537897600000000 \<le> ?us" and hi: "?us \<le> 315537897600000000"
    using assms by (simp_all add: datetime_max_def)
  have "- 3652059 \<le> ?us div 86400000000" using lo by linarith
  moreover have "?us div 86400000000 \<le> 3652059" using hi by linarith
  ultimately have "timedelta_of_hours n = Inr ?us"
    by (simp add: timedelta_of_hours_def Let_def)
  then show ?thesis using assms by (simp add: make_expires_at_def datetime_add_def)
qed

lemma make_expires_at_out_of_range:
  assumes "n \<noteq> 0" and "now + n * 3600000000 < 0 \<or> datetime_max < now + n * 3600000000"
  shows "make_expires_at now (JInt n) = Inl OverflowError"
  using assms
  by (auto simp: make_expires_at_def datetime_add_def timedelta_of_hours_def Let_def split: sum.splits)

lemma shorten_url_obj_created:
  assumes a: "shorten_url P now draws (JObj kvs) s = Some (Inr (Created c u exp), s')"
  shows "\<exists>raw. map_of kvs ''url'' = Some (JStr raw) \<and> u = strip raw \<and> is_valid_url P (strip raw)
     \<and> pick_code draws (url_mappings s) = Some c
     \<and> make_expires_at now (case map_of kvs ''ttl_hours'' of None \<Rightarrow> JNull | Some v \<Rightarrow> v) = Inr exp"
proof (cases "map_of kvs ''url''")
  case None
  then show ?thesis using a shorten_url_obj_missing[of kvs P now draws s] by simp
next
  case (Some v)
  show ?thesis
  proof (cases "\<exists>raw. v = JStr raw")
    case False
    then show ?thesis using a shorten_url_obj_not_str[OF Some, of P now draws s] by simp
  next
    case True
    then obtain raw where v: "v = JStr raw" by blast
    with Some have m: "map_of kvs ''url'' = Some (JStr raw)" by simp
    show ?thesis
      using a unfolding shorten_url_obj_str[OF m]
      by (auto simp: m split: if_splits option.splits sum.splits)
  qed
qed

lemma map_of_filter_keys:
  "map_of (filter (\<lambda>(k, v). k \<notin> A) xs) c = (if c \<in> A then None else map_of xs c)"
  by (induction xs) auto

lemma distinct_map_of_mem:
  "distinct (map fst xs) \<Longrightarrow> (k, v) \<in> set xs \<Longrightarrow> map_of xs k = Some v"
  by simp

lemma strip_example: "strip ''https://example.com'' = ''https://example.com''"
  by (simp add: strip_def isspace_def)

lemma valid_example: "is_valid_url urlparse_core ''https://example.com''"
  by (simp add: is_valid_url_def urlparse_core_def split_scheme_def scheme_char_def
      code_chars_def lower_def)

lemma strip_invalid: "strip ''invalid-url'' = ''invalid-url''"
  by (simp add: strip_def isspace_def)

lemma invalid_example: "\<not> is_valid_url urlparse_core ''invalid-url''"
  by (simp add: is_valid_url_def urlparse_core_def split_scheme_def scheme_char_def
      code_chars_def lower_def)

lemma make_expires_at_nonzero:
  assumes "make_expires_at now (JInt n) = Inr exp" and "n \<noteq> 0"
  shows "exp = IsoStr (now + n * 3600000000)"
  using assms
  by (auto simp: make_expires_at_def timedelta_of_hours_def datetime_add_def Let_def
      split: if_splits sum.splits)

lemma cleanup_keeps_unexpiring:
  assumes d: "distinct (map fst (url_stats s))"
    and st: "map_of (url_stats s) c = Some st" and n: "expires_at st = PNone"
    and m: "map_of (url_mappings s) c = Some u"
    and cl: "cleanup_expired_urls t s = (Inr v, s2)"
  shows "map_of (url_mappings s2) c = Some u"
proof -
  from cl obtain codes where c: "expired_codes t (url_stats s) = Inr codes"
    and s2: "s2 = pop_codes codes s"
    by (auto simp: cleanup_expired_urls_def split: sum.splits)
  have "c \<notin> set codes"
  proof
    assume "c \<in> set codes"
    then obtain st' e where "(c, st') \<in> set (url_stats s)" and e: "expires_at st' = Datetime e"
      unfolding expired_codes_set[OF c] by blast
    with d have "map_of (url_stats s) c = Some st'" by simp
    with st have "st' = st" by simp
    with e n show False by simp
  qed
  then show ?thesis
    by (simp add: s2 pop_codes_url_mappings map_of_filter_keys m)
qed

lemma redirect_to_url_step:
  assumes "map_of (url_mappings s) code = Some target" and "map_of (url_stats s) code = Some st"
  shows "map_of (url_mappings (snd (redirect_to_url code s))) code = Some target
    \<and> map_of (url_stats (snd (redirect_to_url code s))) code = Some (st\<lparr>clicks := clicks st + 1\<rparr>)"
  using assms
  by (simp add: redirect_to_url_def url_stats_getitem_def AList.update_conv')

section \<open>Properties\<close>

subsection \<open>C1: what the sweep removes\<close>

text \<open>
  Claim C1 reads: for every store and every time \<open>now\<close>, the sweep removes exactly the
  records whose \<open>expires_at\<close> is set and \<open>\<le> now\<close>, leaves the others untouched, and
  returns the number of records removed.

  The docstring of \<open>cleanup_expired_urls\<close> says the same of it (remove expired URLs from
  storage), and \<open>test_url_expiration\<close> expects an expired code to be gone. Evaluated on
  the code: \<open>shorten_url\<close> with \<open>ttl_hours = 1\<close> on the empty store stores \<open>expires_at\<close>
  as an ISO string, and the sweep two hours later, when the record has expired, compares
  that string with a datetime on line 33, raises \<open>TypeError\<close> and removes nothing. The
  lemmas \<open>cleanup_raises_on_iso\<close> and \<open>cleanup_completes_unchanged\<close> above say it for
  every store: with a record that has a TTL the sweep raises, and without one it has
  nothing to remove.
\<close>

theorem cleanup_expired_urls_raises_on_expired_record:
  "shorten_url urlparse_core 63900000000000000 [''abc123'']
      (JObj [(''url'', JStr ''https://temp.com''), (''ttl_hours'', JInt 1)]) empty_store
   = Some (Inr (Created ''abc123'' ''https://temp.com'' (IsoStr 63900003600000000)),
       \<lparr>url_mappings = [(''abc123'', ''https://temp.com'')],
        url_stats = [(''abc123'', \<lparr>clicks = 0, created_at = IsoStr 63900000000000000,
                                   expires_at = IsoStr 63900003600000000\<rparr>)]\<rparr>)
   \<and> (63900003600000000 :: int) \<le> 63900007200000000
   \<and> cleanup_expired_urls 63900007200000000
       \<lparr>url_mappings = [(''abc123'', ''https://temp.com'')],
        url_stats = [(''abc123'', \<lparr>clicks = 0, created_at = IsoStr 63900000000000000,
                                   expires_at = IsoStr 63900003600000000\<rparr>)]\<rparr>
     = (Inl TypeError,
       \<lparr>url_mappings = [(''abc123'', ''https://temp.com'')],
        url_stats = [(''abc123'', \<lparr>clicks = 0, created_at = IsoStr 63900000000000000,
                                   expires_at = IsoStr 63900003600000000\<rparr>)]\<rparr>)"
  by (simp add: shorten_url_def empty_store_def is_valid_url_def urlparse_core_def split_scheme_def
      scheme_char_def code_chars_def lower_def make_expires_at_def timedelta_of_hours_def
      datetime_add_def datetime_max_def cleanup_expired_urls_def strip_def isspace_def)

subsection \<open>C2: the store has no internal failure\<close>

text \<open>
  Claim C2 reads: no store operation ever fails internally; every operation completes
  and signals at most \<open>NotFound\<close> or a validation error.

  The repository's own test \<open>test_url_expiration\<close> shortens a URL with a TTL and
  expects the next \<open>GET\<close> of the code to answer 302. Evaluated on the code: the insert
  with \<open>ttl_hours = 1\<close> into the empty store answers 201 and stores \<open>expires_at\<close> as
  an ISO string; from then on the \<open>before_request\<close> sweep of every request, whatever
  its route, compares that string with a datetime on line 33 and raises \<open>TypeError\<close>.
  The lemma \<open>handle_request_raises_on_iso\<close> above says the same for every store that
  holds such a record, every clock and every request.
\<close>

theorem sweep_raises_after_ttl_insert:
  "handle_request urlparse_core 63900000000000000 63900000000000000 [''abc123'']
      (PostShorten (JObj [(''url'', JStr ''https://temp.com''), (''ttl_hours'', JInt 1)])) empty_store
   = Some (Inr (Created ''abc123'' ''https://temp.com'' (IsoStr 63900003600000000)),
       \<lparr>url_mappings = [(''abc123'', ''https://temp.com'')],
        url_stats = [(''abc123'', \<lparr>clicks = 0, created_at = IsoStr 63900000000000000,
                                   expires_at = IsoStr 63900003600000000\<rparr>)]\<rparr>)
   \<and> handle_request urlparse_core 63900000001000000 63900000001000000 []
       (GetCode ''abc123'')
       \<lparr>url_mappings = [(''abc123'', ''https://temp.com'')],
        url_stats = [(''abc123'', \<lparr>clicks = 0, created_at = IsoStr 63900000000000000,
                                   expires_at = IsoStr 63900003600000000\<rparr>)]\<rparr>
     = Some (Inl TypeError,
       \<lparr>url_mappings = [(''abc123'', ''https://temp.com'')],
        url_stats = [(''abc123'', \<lparr>clicks = 0, created_at = IsoStr 63900000000000000,
                                   expires_at = IsoStr 63900003600000000\<rparr>)]\<rparr>)
   \<and> handle_request urlparse_core 63900000001000000 63900000001000000 []
       (GetStats ''abc123'')
       \<lparr>url_mappings = [(''abc123'', ''https://temp.com'')],
        url_stats = [(''abc123'', \<lparr>clicks = 0, created_at = IsoStr 63900000000000000,
                                   expires_at = IsoStr 63900003600000000\<rparr>)]\<rparr>
     = Some (Inl TypeError,
       \<lparr>url_mappings = [(''abc123'', ''https://temp.com'')],
        url_stats = [(''abc123'', \<lparr>clicks = 0, created_at = IsoStr 63900000000000000,
                                   expires_at = IsoStr 63900003600000000\<rparr>)]\<rparr>)
   \<and> handle_request urlparse_core 63900000001000000 63900000001000000 []
       GetUrls
       \<lparr>url_mappings = [(''abc123'', ''https://temp.com'')],
        url_stats = [(''abc123'', \<lparr>clicks = 0, created_at = IsoStr 63900000000000000,
                                   expires_at = IsoStr 63900003600000000\<rparr>)]\<rparr>
     = Some (Inl TypeError,
       \<lparr>url_mappings = [(''abc123'', ''https://temp.com'')],
        url_stats = [(''abc123'', \<lparr>clicks = 0, created_at = IsoStr 63900000000000000,
                                   expires_at = IsoStr 63900003600000000\<rparr>)]\<rparr>)
   \<and> handle_request urlparse_core 63900000001000000 63900000001000000 [''xyz789'']
       (PostShorten (JObj [(''url'', JStr ''https://example.com'')]))
       \<lparr>url_mappings = [(''abc123'', ''https://temp.com'')],
        url_stats = [(''abc123'', \<lparr>clicks = 0, created_at = IsoStr 63900000000000000,
                                   expires_at = IsoStr 63900003600000000\<rparr>)]\<rparr>
     = Some (Inl TypeError,
       \<lparr>url_mappings = [(''abc123'', ''https://temp.com'')],
        url_stats = [(''abc123'', \<lparr>clicks = 0, created_at = IsoStr 63900000000000000,
                                   expires_at = IsoStr 63900003600000000\<rparr>)]\<rparr>)"
  by (simp add: handle_request_def shorten_url_def empty_store_def is_valid_url_def urlparse_core_def
      split_scheme_def scheme_char_def code_chars_def lower_def make_expires_at_def
      timedelta_of_hours_def datetime_add_def datetime_max_def cleanup_expired_urls_def
      strip_def isspace_def)

subsection \<open>C3: a TTL of zero or less\<close>

text \<open>
  Claim C3 reads: an insert with a TTL of 0 or a negative duration yields a record that is
  expired at once, so that the very next Resolve and Stats on the returned code report
  \<open>NotFound\<close>.

  Line 88 guards the expiry with \<open>if ttl_hours\<close>, and 0 is false in Python: a TTL of 0
  is treated like no TTL. What holds of \<open>shorten_url\<close> when it answers 201 for a body
  whose \<open>ttl_hours\<close> is the integer \<open>n\<close>: for \<open>n = 0\<close> the record has no expiry, the
  redirect of the returned code succeeds, Stats reports it active at every time, and (the
  keys of \<open>url_stats\<close> being distinct, as those of a dict are) no sweep that completes
  removes it; for \<open>n < 0\<close> the stored \<open>expires_at\<close> is the ISO string of
  \<open>now + n\<close> hours, strictly before \<open>created_at\<close>.
\<close>

theorem shorten_url_ttl_zero_or_negative:
  "shorten_url P now draws (JObj kvs) s = Some (Inr (Created c u exp), s')
     \<and> map_of kvs ''ttl_hours'' = Some (JInt n) \<longrightarrow>
     (n = 0 \<longrightarrow>
          exp = PNone
        \<and> fst (redirect_to_url c s') = Inr (Redirect u)
        \<and> (\<forall>t. fst (get_stats t c s') = Inr (StatsOK c u 0 (IsoStr now) PNone True))
        \<and> (distinct (map fst (url_stats s)) \<longrightarrow>
             (\<forall>t v s2. cleanup_expired_urls t s' = (Inr v, s2) \<longrightarrow>
                map_of (url_mappings s2) c = Some u)))
   \<and> (n < 0 \<longrightarrow>
          exp = IsoStr (now + n * 3600000000) \<and> now + n * 3600000000 < now
        \<and> map_of (url_stats s') c
            = Some \<lparr>clicks = 0, created_at = IsoStr now,
                    expires_at = IsoStr (now + n * 3600000000)\<rparr>)"
proof (intro impI)
  assume h: "shorten_url P now draws (JObj kvs) s = Some (Inr (Created c u exp), s')
     \<and> map_of kvs ''ttl_hours'' = Some (JInt n)"
  then have a: "shorten_url P now draws (JObj kvs) s = Some (Inr (Created c u exp), s')"
    and t: "map_of kvs ''ttl_hours'' = Some (JInt n)" by simp_all
  from shorten_url_obj_created[OF a] t
  have e: "make_expires_at now (JInt n) = Inr exp" by auto
  from shorten_url_created[OF a]
  have s': "s' = s\<lparr>url_mappings := AList.update c u (url_mappings s),
             url_stats := AList.update c \<lparr>clicks = 0, created_at = IsoStr now, expires_at = exp\<rparr> (url_stats s)\<rparr>"
    by simp
  have mu: "map_of (url_mappings s') c = Some u"
    by (simp add: s' AList.update_conv')
  have ms: "map_of (url_stats s') c = Some \<lparr>clicks = 0, created_at = IsoStr now, expires_at = exp\<rparr>"
    by (simp add: s' AList.update_conv')
  show "(n = 0 \<longrightarrow>
          exp = PNone
        \<and> fst (redirect_to_url c s') = Inr (Redirect u)
        \<and> (\<forall>t. fst (get_stats t c s') = Inr (StatsOK c u 0 (IsoStr now) PNone True))
        \<and> (distinct (map fst (url_stats s)) \<longrightarrow>
             (\<forall>t v s2. cleanup_expired_urls t s' = (Inr v, s2) \<longrightarrow>
                map_of (url_mappings s2) c = Some u)))
   \<and> (n < 0 \<longrightarrow>
          exp = IsoStr (now + n * 3600000000) \<and> now + n * 3600000000 < now
        \<and> map_of (url_stats s') c
            = Some \<lparr>clicks = 0, created_at = IsoStr now,
                    expires_at = IsoStr (now + n * 3600000000)\<rparr>)"
  proof (intro conjI impI allI)
    assume z: "n = 0"
    with e show x: "exp = PNone" by simp
    show "fst (redirect_to_url c s') = Inr (Redirect u)"
      by (simp add: redirect_to_url_def mu split: prod.splits)
    fix t
    show "fst (get_stats t c s') = Inr (StatsOK c u 0 (IsoStr now) PNone True)"
      by (simp add: get_stats_def mu ms x url_stats_getitem_def is_active_def)
  next
    fix t v s2
    assume z: "n = 0" and d: "distinct (map fst (url_stats s))"
      and cl: "cleanup_expired_urls t s' = (Inr v, s2)"
    from z e have x: "exp = PNone" by simp
    have d': "distinct (map fst (url_stats s'))"
      by (simp add: s' AList.distinct_update d)
    show "map_of (url_mappings s2) c = Some u"
      by (rule cleanup_keeps_unexpiring[OF d' ms _ mu cl]) (simp add: x)
  next
    assume neg: "n < 0"
    then have "n \<noteq> 0" by simp
    with e show x: "exp = IsoStr (now + n * 3600000000)" by (rule make_expires_at_nonzero)
    from neg show "now + n * 3600000000 < now" by simp
    from ms x show "map_of (url_stats s') c
            = Some \<lparr>clicks = 0, created_at = IsoStr now,
                    expires_at = IsoStr (now + n * 3600000000)\<rparr>" by simp
  qed
qed

text \<open>
  With \<open>ttl_hours = 0\<close> the record has no expiry and is found; with
  \<open>ttl_hours = -1\<close> the stored expiry is one hour before the creation time.
\<close>

theorem shorten_url_ttl_zero_or_negative_witness:
  "shorten_url urlparse_core 63900000000000000 [''abc123'']
      (JObj [(''url'', JStr ''https://example.com''), (''ttl_hours'', JInt 0)]) empty_store
     = Some (Inr (Created ''abc123'' ''https://example.com'' PNone),
         \<lparr>url_mappings = [(''abc123'', ''https://example.com'')],
          url_stats = [(''abc123'', \<lparr>clicks = 0, created_at = IsoStr 63900000000000000,
                                     expires_at = PNone\<rparr>)]\<rparr>)
   \<and> fst (redirect_to_url ''abc123''
         \<lparr>url_mappings = [(''abc123'', ''https://example.com'')],
          url_stats = [(''abc123'', \<lparr>clicks = 0, created_at = IsoStr 63900000000000000,
                                     expires_at = PNone\<rparr>)]\<rparr>)
     = Inr (Redirect ''https://example.com'')
   \<and> fst (get_stats 63900000000000001 ''abc123''
         \<lparr>url_mappings = [(''abc123'', ''https://example.com'')],
          url_stats = [(''abc123'', \<lparr>clicks = 0, created_at = IsoStr 63900000000000000,
                                     expires_at = PNone\<rparr>)]\<rparr>)
     = Inr (StatsOK ''abc123'' ''https://example.com'' 0 (IsoStr 63900000000000000) PNone True)
   \<and> shorten_url urlparse_core 63900000000000000 [''abc123'']
      (JObj [(''url'', JStr ''https://example.com''), (''ttl_hours'', JInt (- 1))]) empty_store
     = Some (Inr (Created ''abc123'' ''https://example.com'' (IsoStr 63899996400000000)),
         \<lparr>url_mappings = [(''abc123'', ''https://example.com'')],
          url_stats = [(''abc123'', \<lparr>clicks = 0, created_at = IsoStr 63900000000000000,
                                     expires_at = IsoStr 63899996400000000\<rparr>)]\<rparr>)
   \<and> (63899996400000000 :: int) < 63900000000000000"
proof -
  let ?k0 = "[(''url'', JStr ''https://example.com''), (''ttl_hours'', JInt 0)]"
  let ?kn = "[(''url'', JStr ''https://example.com''), (''ttl_hours'', JInt (- 1))]"
  let ?a = "\<lparr>url_mappings = [(''abc123'', ''https://example.com'')],
          url_stats = [(''abc123'', \<lparr>clicks = 0, created_at = IsoStr 63900000000000000,
                                     expires_at = PNone\<rparr>)]\<rparr>"
  let ?b = "\<lparr>url_mappings = [(''abc123'', ''https://example.com'')],
          url_stats = [(''abc123'', \<lparr>clicks = 0, created_at = IsoStr 63900000000000000,
                                     expires_at = IsoStr 63899996400000000\<rparr>)]\<rparr>"
  have m: "map_of ?k0 ''url'' = Some (JStr ''https://example.com'')"
    and mn: "map_of ?kn ''url'' = Some (JStr ''https://example.com'')" by simp_all
  have 1: "shorten_url urlparse_core 63900000000000000 [''abc123''] (JObj ?k0) empty_store
     = Some (Inr (Created ''abc123'' ''https://example.com'' PNone), ?a)"
    by (subst shorten_url_obj_str[OF m])
       (simp add: strip_example valid_example empty_store_def)
  have 2: "shorten_url urlparse_core 63900000000000000 [''abc123''] (JObj ?kn) empty_store
     = Some (Inr (Created ''abc123'' ''https://example.com'' (IsoStr 63899996400000000)), ?b)"
    by (subst shorten_url_obj_str[OF mn])
       (simp add: strip_example valid_example empty_store_def make_expires_at_def
          timedelta_of_hours_def datetime_add_def datetime_max_def)
  have t0: "map_of ?k0 ''ttl_hours'' = Some (JInt 0)"
    and tn: "map_of ?kn ''ttl_hours'' = Some (JInt (- 1))" by simp_all
  have 3: "fst (redirect_to_url ''abc123'' ?a) = Inr (Redirect ''https://example.com'')
     \<and> fst (get_stats 63900000000000001 ''abc123'' ?a)
       = Inr (StatsOK ''abc123'' ''https://example.com'' 0 (IsoStr 63900000000000000) PNone True)"
    using shorten_url_ttl_zero_or_negative[of urlparse_core 63900000000000000 "[''abc123'']"
        ?k0 empty_store "''abc123''" "''https://example.com''" PNone ?a 0] 1 t0
    by blast
  have 4: "(63900000000000000 :: int) + (- 1) * 3600000000 < 63900000000000000"
    using shorten_url_ttl_zero_or_negative[of urlparse_core 63900000000000000 "[''abc123'']"
        ?kn empty_store "''abc123''" "''https://example.com''" "IsoStr 63899996400000000" ?b "- 1"]
      2 tn
    by simp
  from 1 2 3 4 show ?thesis by simp
qed

text \<open>
  C3 as stated fails for a TTL of 0: on the empty store the insert answers 201, the next
  request redirects, and Stats after it reports one click and \<open>is_active\<close> true.
\<close>

theorem shorten_url_ttl_zero_counterexample:
  "handle_request urlparse_core 63900000000000000 63900000000000000 [''abc123'']
      (PostShorten (JObj [(''url'', JStr ''https://example.com''), (''ttl_hours'', JInt 0)]))
      empty_store
     = Some (Inr (Created ''abc123'' ''https://example.com'' PNone),
         \<lparr>url_mappings = [(''abc123'', ''https://example.com'')],
          url_stats = [(''abc123'', \<lparr>clicks = 0, created_at = IsoStr 63900000000000000,
                                     expires_at = PNone\<rparr>)]\<rparr>)
   \<and> handle_request urlparse_core 63900000001000000 63900000001000000 [] (GetCode ''abc123'')
         \<lparr>url_mappings = [(''abc123'', ''https://example.com'')],
          url_stats = [(''abc123'', \<lparr>clicks = 0, created_at = IsoStr 63900000000000000,
                                     expires_at = PNone\<rparr>)]\<rparr>
     = Some (Inr (Redirect ''https://example.com''),
         \<lparr>url_mappings = [(''abc123'', ''https://example.com'')],
          url_stats = [(''abc123'', \<lparr>clicks = 1, created_at = IsoStr 63900000000000000,
                                     expires_at = PNone\<rparr>)]\<rparr>)
   \<and> handle_request urlparse_core 63900000002000000 63900000002000000 [] (GetStats ''abc123'')
         \<lparr>url_mappings = [(''abc123'', ''https://example.com'')],
          url_stats = [(''abc123'', \<lparr>clicks = 1, created_at = IsoStr 63900000000000000,
                                     expires_at = PNone\<rparr>)]\<rparr>
     = Some (Inr (StatsOK ''abc123'' ''https://example.com'' 1 (IsoStr 63900000000000000) PNone True),
         \<lparr>url_mappings = [(''abc123'', ''https://example.com'')],
          url_stats = [(''abc123'', \<lparr>clicks = 1, created_at = IsoStr 63900000000000000,
                                     expires_at = PNone\<rparr>)]\<rparr>)"
proof -
  let ?a = "\<lparr>url_mappings = [(''abc123'', ''https://example.com'')],
          url_stats = [(''abc123'', \<lparr>clicks = 0, created_at = IsoStr 63900000000000000,
                                     expires_at = PNone\<rparr>)]\<rparr>"
  let ?b = "\<lparr>url_mappings = [(''abc123'', ''https://example.com'')],
          url_stats = [(''abc123'', \<lparr>clicks = 1, created_at = IsoStr 63900000000000000,
                                     expires_at = PNone\<rparr>)]\<rparr>"
  have m: "map_of [(''url'', JStr ''https://example.com''), (''ttl_hours'', JInt 0)] ''url''
      = Some (JStr ''https://example.com'')" by simp
  have c: "cleanup_expired_urls 63900000000000000 empty_store = (Inr (), empty_store)"
    by (simp add: cleanup_expired_urls_def empty_store_def)
  have s: "shorten_url urlparse_core 63900000000000000 [''abc123'']
      (JObj [(''url'', JStr ''https://example.com''), (''ttl_hours'', JInt 0)]) empty_store
     = Some (Inr (Created ''abc123'' ''https://example.com'' PNone), ?a)"
    by (subst shorten_url_obj_str[OF m])
       (simp add: strip_example valid_example empty_store_def)
  have 1: "handle_request urlparse_core 63900000000000000 63900000000000000 [''abc123'']
      (PostShorten (JObj [(''url'', JStr ''https://example.com''), (''ttl_hours'', JInt 0)]))
      empty_store
     = Some (Inr (Created ''abc123'' ''https://example.com'' PNone), ?a)"
    by (simp only: handle_request_def c s prod.case sum.case request.case)
  have 2: "handle_request urlparse_core 63900000001000000 63900000001000000 [] (GetCode ''abc123'') ?a
     = Some (Inr (Redirect ''https://example.com''), ?b)"
    by (simp add: handle_request_def cleanup_expired_urls_def redirect_to_url_def
        url_stats_getitem_def)
  have 3: "handle_request urlparse_core 63900000002000000 63900000002000000 [] (GetStats ''abc123'') ?b
     = Some (Inr (StatsOK ''abc123'' ''https://example.com'' 1 (IsoStr 63900000000000000) PNone True),
         ?b)"
    by (simp add: handle_request_def cleanup_expired_urls_def get_stats_def
        url_stats_getitem_def is_active_def)
  show ?thesis by (rule conjI[OF 1 conjI[OF 2 3]])
qed

subsection \<open>C4: Resolve\<close>




subsection \<open>C5: Stats\<close>







subsection \<open>C6: the returned code is fresh\<close>

text \<open>
  Claim C6: the insert retries on a collision until it draws a code that is not in use,
  so the code it returns is not among the codes of the store at the moment of insertion,
  and no two records ever share a code.

  When \<open>shorten_url\<close> answers 201 with code \<open>c\<close>: \<open>c\<close> was not a key of \<open>url_mappings\<close>,
  it is the first draw that was not (every draw before it was a key), the new mapping is
  added at the end and every other key keeps its target. The loop ends as soon as one
  draw is free. And the keys of \<open>url_mappings\<close> stay distinct through every request.
\<close>

theorem shorten_url_code_unique:
  "(shorten_url P now draws data s = Some (Inr (Created c u exp), s') \<longrightarrow>
       map_of (url_mappings s) c = None
     \<and> (\<exists>pre post. draws = pre @ c # post \<and> (\<forall>x \<in> set pre. map_of (url_mappings s) x \<noteq> None))
     \<and> url_mappings s' = url_mappings s @ [(c, u)]
     \<and> map_of (url_mappings s') c = Some u
     \<and> (\<forall>k. k \<noteq> c \<longrightarrow> map_of (url_mappings s') k = map_of (url_mappings s) k))
   \<and> ((\<exists>x \<in> set draws. map_of (url_mappings s) x = None) \<longrightarrow>
        pick_code draws (url_mappings s) \<noteq> None)
   \<and> (distinct (map fst (url_mappings s)) \<longrightarrow>
        (\<forall>t0 t1 req r s2. handle_request P t0 t1 draws req s = Some (r, s2) \<longrightarrow>
           distinct (map fst (url_mappings s2))))"
proof (intro conjI impI allI)
  assume a: "shorten_url P now draws data s = Some (Inr (Created c u exp), s')"
  from shorten_url_created[OF a] have p: "pick_code draws (url_mappings s) = Some c"
    and m: "url_mappings s' = AList.update c u (url_mappings s)" by simp_all
  from p show f: "map_of (url_mappings s) c = None" by (rule pick_code_fresh)
  from p show "\<exists>pre post. draws = pre @ c # post \<and> (\<forall>x \<in> set pre. map_of (url_mappings s) x \<noteq> None)"
    unfolding pick_code_first by blast
  show "url_mappings s' = url_mappings s @ [(c, u)]"
    by (simp only: m update_fresh[OF f])
  show "map_of (url_mappings s') c = Some u"
    by (simp add: m AList.update_conv')
  fix k assume "k \<noteq> c"
  then show "map_of (url_mappings s') k = map_of (url_mappings s) k"
    by (simp add: m AList.update_conv')
next
  assume "\<exists>x \<in> set draws. map_of (url_mappings s) x = None"
  then show "pick_code draws (url_mappings s) \<noteq> None" by (rule pick_code_Some_if_free)
next
  fix t0 t1 req r s2
  assume "distinct (map fst (url_mappings s))" and "handle_request P t0 t1 draws req s = Some (r, s2)"
  then show "distinct (map fst (url_mappings s2))" by (rule handle_request_distinct)
qed

text \<open>
  The first draw collides with the code in the store, the second is taken, and the
  record already there keeps its target.
\<close>

theorem shorten_url_code_unique_witness:
  "map_of [(''abc123'', ''https://example.org'')] ''abc123'' \<noteq> None
   \<and> shorten_url urlparse_core 63900000000000000 [''abc123'', ''xyz789'']
      (JObj [(''url'', JStr ''https://example.com'')])
      \<lparr>url_mappings = [(''abc123'', ''https://example.org'')],
       url_stats = [(''abc123'', \<lparr>clicks = 3, created_at = IsoStr 63800000000000000,
                                  expires_at = PNone\<rparr>)]\<rparr>
     = Some (Inr (Created ''xyz789'' ''https://example.com'' PNone),
         \<lparr>url_mappings = [(''abc123'', ''https://example.org''), (''xyz789'', ''https://example.com'')],
          url_stats = [(''abc123'', \<lparr>clicks = 3, created_at = IsoStr 63800000000000000,
                                     expires_at = PNone\<rparr>),
                       (''xyz789'', \<lparr>clicks = 0, created_at = IsoStr 63900000000000000,
                                     expires_at = PNone\<rparr>)]\<rparr>)
   \<and> map_of [(''abc123'', ''https://example.org'')] ''xyz789'' = None
   \<and> map_of [(''abc123'', ''https://example.org''), (''xyz789'', ''https://example.com'')] ''abc123''
       = Some ''https://example.org''"
proof -
  let ?s = "\<lparr>url_mappings = [(''abc123'', ''https://example.org'')],
       url_stats = [(''abc123'', \<lparr>clicks = 3, created_at = IsoStr 63800000000000000,
                                  expires_at = PNone\<rparr>)]\<rparr>"
  let ?t = "\<lparr>url_mappings = [(''abc123'', ''https://example.org''), (''xyz789'', ''https://example.com'')],
          url_stats = [(''abc123'', \<lparr>clicks = 3, created_at = IsoStr 63800000000000000,
                                     expires_at = PNone\<rparr>),
                       (''xyz789'', \<lparr>clicks = 0, created_at = IsoStr 63900000000000000,
                                     expires_at = PNone\<rparr>)]\<rparr>"
  have m: "map_of [(''url'', JStr ''https://example.com'')] ''url'' = Some (JStr ''https://example.com'')"
    by simp
  have 1: "shorten_url urlparse_core 63900000000000000 [''abc123'', ''xyz789'']
      (JObj [(''url'', JStr ''https://example.com'')]) ?s
     = Some (Inr (Created ''xyz789'' ''https://example.com'' PNone), ?t)"
    by (subst shorten_url_obj_str[OF m]) (simp add: strip_example valid_example)
  have 2: "map_of (url_mappings ?s) ''xyz789'' = None
     \<and> map_of (url_mappings ?t) ''abc123'' = map_of (url_mappings ?s) ''abc123''"
    using shorten_url_code_unique[of urlparse_core 63900000000000000 "[''abc123'', ''xyz789'']"
        "JObj [(''url'', JStr ''https://example.com'')]" ?s "''xyz789''" "''https://example.com''"
        PNone ?t] 1
    by simp
  from 1 2 show ?thesis by simp
qed

subsection \<open>C7: the status of POST /api/shorten\<close>

text \<open>
  Claim C7 reads: \<open>POST /api/shorten\<close> returns 400 if and only if the \<open>url\<close> field is
  missing or the URL fails validation; on such a rejection the store is unchanged; on
  any other input it returns 201 with a new record inserted.

  The last part is too strong: line 88 adds the TTL to the clock without a guard, and
  Python raises \<open>OverflowError\<close> when the sum is no date between the years 1 and 9999.
  What holds of \<open>shorten_url\<close> on a JSON object: it answers 400 exactly when the object
  is empty, has no \<open>url\<close>, or has a string \<open>url\<close> whose stripped text fails
  \<open>is_valid_url\<close> (scheme \<open>http\<close> or \<open>https\<close>, netloc not empty); a 400 never changes the
  store; for a string \<open>url\<close> that is valid and a free code \<open>c\<close>, it answers 201 and adds
  one record, without expiry when \<open>ttl_hours\<close> is missing or 0, with expiry
  \<open>now + n\<close> hours when \<open>ttl_hours\<close> is an integer \<open>n\<close> and that time is a
  representable datetime; and when it is not, the call raises \<open>OverflowError\<close> and the
  store is unchanged.
\<close>

theorem shorten_url_status:
  "((\<exists>m s'. shorten_url P now draws (JObj kvs) s = Some (Inr (BadRequest m), s')) \<longleftrightarrow>
      (kvs = [] \<or> map_of kvs ''url'' = None
       \<or> (\<exists>raw. map_of kvs ''url'' = Some (JStr raw) \<and> \<not> is_valid_url P (strip raw))))
   \<and> (\<forall>m s'. shorten_url P now draws data s = Some (Inr (BadRequest m), s') \<longrightarrow> s' = s)
   \<and> (\<forall>raw c. map_of kvs ''url'' = Some (JStr raw) \<and> is_valid_url P (strip raw)
          \<and> pick_code draws (url_mappings s) = Some c \<longrightarrow>
        ((map_of kvs ''ttl_hours'' = None \<or> map_of kvs ''ttl_hours'' = Some (JInt 0)) \<longrightarrow>
           shorten_url P now draws (JObj kvs) s
             = Some (Inr (Created c (strip raw) PNone),
                 s\<lparr>url_mappings := url_mappings s @ [(c, strip raw)],
                   url_stats := AList.update c
                      \<lparr>clicks = 0, created_at = IsoStr now, expires_at = PNone\<rparr> (url_stats s)\<rparr>))
      \<and> (\<forall>n. map_of kvs ''ttl_hours'' = Some (JInt n) \<and> n \<noteq> 0 \<and> 0 \<le> now \<and> now \<le> datetime_max
             \<and> 0 \<le> now + n * 3600000000 \<and> now + n * 3600000000 \<le> datetime_max \<longrightarrow>
           shorten_url P now draws (JObj kvs) s
             = Some (Inr (Created c (strip raw) (IsoStr (now + n * 3600000000))),
                 s\<lparr>url_mappings := url_mappings s @ [(c, strip raw)],
                   url_stats := AList.update c
                      \<lparr>clicks = 0, created_at = IsoStr now,
                       expires_at = IsoStr (now + n * 3600000000)\<rparr> (url_stats s)\<rparr>))
      \<and> (\<forall>n. map_of kvs ''ttl_hours'' = Some (JInt n) \<and> n \<noteq> 0
             \<and> (now + n * 3600000000 < 0 \<or> datetime_max < now + n * 3600000000) \<longrightarrow>
           shorten_url P now draws (JObj kvs) s = Some (Inl OverflowError, s)))"
proof (intro conjI allI impI)
  show "(\<exists>m s'. shorten_url P now draws (JObj kvs) s = Some (Inr (BadRequest m), s')) \<longleftrightarrow>
      (kvs = [] \<or> map_of kvs ''url'' = None
       \<or> (\<exists>raw. map_of kvs ''url'' = Some (JStr raw) \<and> \<not> is_valid_url P (strip raw)))"
    (is "?L \<longleftrightarrow> ?R")
  proof
    assume ?L
    then obtain m s' where a: "shorten_url P now draws (JObj kvs) s = Some (Inr (BadRequest m), s')"
      by blast
    show ?R
    proof (cases "map_of kvs ''url''")
      case None
      then show ?thesis by simp
    next
      case (Some v)
      show ?thesis
      proof (cases "\<exists>raw. v = JStr raw")
        case False
        then show ?thesis using a shorten_url_obj_not_str[OF Some, of P now draws s] by simp
      next
        case True
        then obtain raw where "v = JStr raw" by blast
        with Some have m: "map_of kvs ''url'' = Some (JStr raw)" by simp
        have "\<not> is_valid_url P (strip raw)"
          using a unfolding shorten_url_obj_str[OF m]
          by (auto split: if_splits option.splits sum.splits)
        with m show ?thesis by blast
      qed
    qed
  next
    assume r: ?R
    show ?L
    proof (cases "kvs = [] \<or> map_of kvs ''url'' = None")
      case True
      then show ?thesis using shorten_url_obj_missing[of kvs P now draws s] by blast
    next
      case False
      with r obtain raw where m: "map_of kvs ''url'' = Some (JStr raw)"
        and i: "\<not> is_valid_url P (strip raw)" by blast
      then show ?thesis by (simp add: shorten_url_obj_str[OF m])
    qed
  qed
next
  fix m s'
  assume "shorten_url P now draws data s = Some (Inr (BadRequest m), s')"
  then show "s' = s" by (rule shorten_url_rejection_unchanged)
next
  fix raw c
  assume h: "map_of kvs ''url'' = Some (JStr raw) \<and> is_valid_url P (strip raw)
          \<and> pick_code draws (url_mappings s) = Some c"
    and t: "map_of kvs ''ttl_hours'' = None \<or> map_of kvs ''ttl_hours'' = Some (JInt 0)"
  from h have m: "map_of kvs ''url'' = Some (JStr raw)" and v: "is_valid_url P (strip raw)"
    and p: "pick_code draws (url_mappings s) = Some c" by simp_all
  have f: "AList.update c (strip raw) (url_mappings s) = url_mappings s @ [(c, strip raw)]"
    by (rule update_fresh[OF pick_code_fresh[OF p]])
  from t show "shorten_url P now draws (JObj kvs) s
             = Some (Inr (Created c (strip raw) PNone),
                 s\<lparr>url_mappings := url_mappings s @ [(c, strip raw)],
                   url_stats := AList.update c
                      \<lparr>clicks = 0, created_at = IsoStr now, expires_at = PNone\<rparr> (url_stats s)\<rparr>)"
    by (auto simp: shorten_url_obj_str[OF m] v p f)
next
  fix raw c n
  assume h: "map_of kvs ''url'' = Some (JStr raw) \<and> is_valid_url P (strip raw)
          \<and> pick_code draws (url_mappings s) = Some c"
    and t: "map_of kvs ''ttl_hours'' = Some (JInt n) \<and> n \<noteq> 0 \<and> 0 \<le> now \<and> now \<le> datetime_max
             \<and> 0 \<le> now + n * 3600000000 \<and> now + n * 3600000000 \<le> datetime_max"
  from h have m: "map_of kvs ''url'' = Some (JStr raw)" and v: "is_valid_url P (strip raw)"
    and p: "pick_code draws (url_mappings s) = Some c" by simp_all
  have f: "AList.update c (strip raw) (url_mappings s) = url_mappings s @ [(c, strip raw)]"
    by (rule update_fresh[OF pick_code_fresh[OF p]])
  from t have e: "make_expires_at now (JInt n) = Inr (IsoStr (now + n * 3600000000))"
    by (intro make_expires_at_in_range) simp_all
  from t have tt: "map_of kvs ''ttl_hours'' = Some (JInt n)" by simp
  show "shorten_url P now draws (JObj kvs) s
             = Some (Inr (Created c (strip raw) (IsoStr (now + n * 3600000000))),
                 s\<lparr>url_mappings := url_mappings s @ [(c, strip raw)],
                   url_stats := AList.update c
                      \<lparr>clicks = 0, created_at = IsoStr now,
                       expires_at = IsoStr (now + n * 3600000000)\<rparr> (url_stats s)\<rparr>)"
    by (simp add: shorten_url_obj_str[OF m] v p f tt e)
next
  fix raw c n
  assume h: "map_of kvs ''url'' = Some (JStr raw) \<and> is_valid_url P (strip raw)
          \<and> pick_code draws (url_mappings s) = Some c"
    and t: "map_of kvs ''ttl_hours'' = Some (JInt n) \<and> n \<noteq> 0
             \<and> (now + n * 3600000000 < 0 \<or> datetime_max < now + n * 3600000000)"
  from h have m: "map_of kvs ''url'' = Some (JStr raw)" and v: "is_valid_url P (strip raw)"
    and p: "pick_code draws (url_mappings s) = Some c" by simp_all
  from t have e: "make_expires_at now (JInt n) = Inl OverflowError"
    by (intro make_expires_at_out_of_range) simp_all
  from t have tt: "map_of kvs ''ttl_hours'' = Some (JInt n)" by simp
  show "shorten_url P now draws (JObj kvs) s = Some (Inl OverflowError, s)"
    by (simp add: shorten_url_obj_str[OF m] v p tt e)
qed

text \<open>
  A valid URL without TTL and with a TTL of two hours is inserted; \<open>invalid-url\<close> and a
  body without a \<open>url\<close> key are rejected.
\<close>

theorem shorten_url_status_witness:
  "shorten_url urlparse_core 63900000000000000 [''abc123'']
      (JObj [(''url'', JStr ''https://example.com'')]) empty_store
     = Some (Inr (Created ''abc123'' ''https://example.com'' PNone),
         \<lparr>url_mappings = [(''abc123'', ''https://example.com'')],
          url_stats = [(''abc123'', \<lparr>clicks = 0, created_at = IsoStr 63900000000000000,
                                     expires_at = PNone\<rparr>)]\<rparr>)
   \<and> shorten_url urlparse_core 63900000000000000 [''abc123'']
      (JObj [(''url'', JStr ''https://example.com''), (''ttl_hours'', JInt 2)]) empty_store
     = Some (Inr (Created ''abc123'' ''https://example.com'' (IsoStr 63900007200000000)),
         \<lparr>url_mappings = [(''abc123'', ''https://example.com'')],
          url_stats = [(''abc123'', \<lparr>clicks = 0, created_at = IsoStr 63900000000000000,
                                     expires_at = IsoStr 63900007200000000\<rparr>)]\<rparr>)
   \<and> (\<exists>m s'. shorten_url urlparse_core 63900000000000000 [''abc123'']
          (JObj [(''url'', JStr ''invalid-url'')]) empty_store = Some (Inr (BadRequest m), s'))
   \<and> (\<exists>m s'. shorten_url urlparse_core 63900000000000000 [''abc123'']
          (JObj [(''link'', JStr ''https://example.com'')]) empty_store = Some (Inr (BadRequest m), s'))"
proof -
  have p: "pick_code [''abc123''] (url_mappings empty_store) = Some ''abc123''"
    by (simp add: empty_store_def)
  have v: "is_valid_url urlparse_core (strip ''https://example.com'')"
    by (simp only: strip_example valid_example)
  have 1: "shorten_url urlparse_core 63900000000000000 [''abc123'']
      (JObj [(''url'', JStr ''https://example.com'')]) empty_store
     = Some (Inr (Created ''abc123'' (strip ''https://example.com'') PNone),
         empty_store\<lparr>url_mappings := url_mappings empty_store @ [(''abc123'', strip ''https://example.com'')],
           url_stats := AList.update ''abc123''
              \<lparr>clicks = 0, created_at = IsoStr 63900000000000000, expires_at = PNone\<rparr>
              (url_stats empty_store)\<rparr>)"
    using shorten_url_status[of urlparse_core 63900000000000000 "[''abc123'']"
        "[(''url'', JStr ''https://example.com'')]" empty_store] p v
    by simp
  have 2: "shorten_url urlparse_core 63900000000000000 [''abc123'']
      (JObj [(''url'', JStr ''https://example.com''), (''ttl_hours'', JInt 2)]) empty_store
     = Some (Inr (Created ''abc123'' (strip ''https://example.com'')
                   (IsoStr (63900000000000000 + 2 * 3600000000))),
         empty_store\<lparr>url_mappings := url_mappings empty_store @ [(''abc123'', strip ''https://example.com'')],
           url_stats := AList.update ''abc123''
              \<lparr>clicks = 0, created_at = IsoStr 63900000000000000,
               expires_at = IsoStr (63900000000000000 + 2 * 3600000000)\<rparr>
              (url_stats empty_store)\<rparr>)"
    using shorten_url_status[of urlparse_core 63900000000000000 "[''abc123'']"
        "[(''url'', JStr ''https://example.com''), (''ttl_hours'', JInt 2)]" empty_store] p v
    by (simp add: datetime_max_def)
  have 3: "\<exists>m s'. shorten_url urlparse_core 63900000000000000 [''abc123'']
          (JObj [(''url'', JStr ''invalid-url'')]) empty_store = Some (Inr (BadRequest m), s')"
    using shorten_url_status[of urlparse_core 63900000000000000 "[''abc123'']"
        "[(''url'', JStr ''invalid-url'')]" empty_store]
    by (simp add: strip_invalid invalid_example)
  have 4: "\<exists>m s'. shorten_url urlparse_core 63900000000000000 [''abc123'']
          (JObj [(''link'', JStr ''https://example.com'')]) empty_store = Some (Inr (BadRequest m), s')"
    using shorten_url_status[of urlparse_core 63900000000000000 "[''abc123'']"
        "[(''link'', JStr ''https://example.com'')]" empty_store]
    by simp
  from 1 2 3 4 show ?thesis by (simp add: strip_example empty_store_def)
qed

text \<open>
  C7 as stated fails for a valid URL with \<open>ttl_hours = 1000000000\<close>: the expiry would
  lie beyond the year 9999, and the call raises \<open>OverflowError\<close> instead of answering 201.
\<close>

theorem shorten_url_status_counterexample:
  "is_valid_url urlparse_core (strip ''https://example.com'')
   \<and> shorten_url urlparse_core 63900000000000000 [''abc123'']
        (JObj [(''url'', JStr ''https://example.com''), (''ttl_hours'', JInt 1000000000)])
        empty_store
     = Some (Inl OverflowError, empty_store)"
  by (simp add: strip_example valid_example shorten_url_def empty_store_def make_expires_at_def
      timedelta_of_hours_def datetime_add_def datetime_max_def)

subsection \<open>C8: clicks of successive redirects\<close>

text \<open>
  Claim C8 is about \<open>N\<close> concurrent Resolve calls; threads and their interleavings are
  not part of this sequential model. What the model does say: \<open>n\<close> redirects of a code,
  one after the other, leave its click count at the prior value plus \<open>n\<close>.
\<close>

theorem sequential_redirects_count:
  "map_of (url_mappings s) code = Some target \<and> map_of (url_stats s) code = Some st \<longrightarrow>
     map_of (url_mappings (((\<lambda>x. snd (redirect_to_url code x)) ^^ n) s)) code = Some target
   \<and> map_of (url_stats (((\<lambda>x. snd (redirect_to_url code x)) ^^ n) s)) code
       = Some (st\<lparr>clicks := clicks st + int n\<rparr>)"
proof (induction n)
  case 0
  then show ?case by simp
next
  case (Suc n)
  show ?case
  proof
    assume a: "map_of (url_mappings s) code = Some target \<and> map_of (url_stats s) code = Some st"
    let ?x = "((\<lambda>x. snd (redirect_to_url code x)) ^^ n) s"
    from Suc.IH a have m: "map_of (url_mappings ?x) code = Some target"
      and c: "map_of (url_stats ?x) code = Some (st\<lparr>clicks := clicks st + int n\<rparr>)" by simp_all
    from redirect_to_url_step[OF m c]
    show "map_of (url_mappings (((\<lambda>x. snd (redirect_to_url code x)) ^^ Suc n) s)) code = Some target
      \<and> map_of (url_stats (((\<lambda>x. snd (redirect_to_url code x)) ^^ Suc n) s)) code
         = Some (st\<lparr>clicks := clicks st + int (Suc n)\<rparr>)"
      by (simp add: add.assoc)
  qed
qed

text \<open>
Three redirects of a fresh record leave three clicks.
\<close>

theorem sequential_redirects_count_witness:
  "map_of (url_stats (((\<lambda>x. snd (redirect_to_url ''abc123'' x)) ^^ 3)
       \<lparr>url_mappings = [(''abc123'', ''https://concurrent.example'')],
        url_stats = [(''abc123'', \<lparr>clicks = 0, created_at = IsoStr 63900000000000000,
                                   expires_at = PNone\<rparr>)]\<rparr>)) ''abc123''
   = Some \<lparr>clicks = 3, created_at = IsoStr 63900000000000000, expires_at = PNone\<rparr>"
  using sequential_redirects_count[of
       "\<lparr>url_mappings = [(''abc123'', ''https://concurrent.example'')],
        url_stats = [(''abc123'', \<lparr>clicks = 0, created_at = IsoStr 63900000000000000,
                                   expires_at = PNone\<rparr>)]\<rparr>"
       "''abc123''" "''https://concurrent.example''"
       "\<lparr>clicks = 0, created_at = IsoStr 63900000000000000, expires_at = PNone\<rparr>" 3]
  by simp

subsection \<open>C9: both tables have the same keys\<close>

text \<open>
  Claim C9: after every store operation the tables \<open>url_mappings\<close> and \<open>url_stats\<close>
  have exactly the same set of keys.

  The empty store has the property, and every operation keeps it, however it ends: the
  sweep, \<open>shorten_url\<close>, \<open>redirect_to_url\<close>, \<open>get_stats\<close>, \<open>list_urls\<close>, and a whole
  request (sweep, then view function).
\<close>

theorem tables_have_same_keys:
  "fst ` set (url_mappings empty_store) = fst ` set (url_stats empty_store)
   \<and> (fst ` set (url_mappings s) = fst ` set (url_stats s) \<longrightarrow>
        fst ` set (url_mappings (snd (cleanup_expired_urls now s)))
          = fst ` set (url_stats (snd (cleanup_expired_urls now s)))
      \<and> (\<forall>r s'. shorten_url P now draws data s = Some (r, s') \<longrightarrow>
             fst ` set (url_mappings s') = fst ` set (url_stats s'))
      \<and> fst ` set (url_mappings (snd (redirect_to_url code s)))
          = fst ` set (url_stats (snd (redirect_to_url code s)))
      \<and> fst ` set (url_mappings (snd (get_stats now code s)))
          = fst ` set (url_stats (snd (get_stats now code s)))
      \<and> fst ` set (url_mappings (snd (list_urls s))) = fst ` set (url_stats (snd (list_urls s)))
      \<and> (\<forall>t0 t1 req r s'. handle_request P t0 t1 draws req s = Some (r, s') \<longrightarrow>
             fst ` set (url_mappings s') = fst ` set (url_stats s')))"
proof (intro conjI impI allI)
  show "fst ` set (url_mappings empty_store) = fst ` set (url_stats empty_store)"
    by (simp add: empty_store_def)
next
  assume k: "fst ` set (url_mappings s) = fst ` set (url_stats s)"
  show "fst ` set (url_mappings (snd (cleanup_expired_urls now s)))
          = fst ` set (url_stats (snd (cleanup_expired_urls now s)))"
    by (rule cleanup_keys[OF k])
next
  fix r s'
  assume k: "fst ` set (url_mappings s) = fst ` set (url_stats s)"
    and h: "shorten_url P now draws data s = Some (r, s')"
  show "fst ` set (url_mappings s') = fst ` set (url_stats s')"
    by (rule shorten_url_keys[OF k h])
next
  assume k: "fst ` set (url_mappings s) = fst ` set (url_stats s)"
  show "fst ` set (url_mappings (snd (redirect_to_url code s)))
          = fst ` set (url_stats (snd (redirect_to_url code s)))"
    by (rule redirect_to_url_keys[OF k])
next
  assume k: "fst ` set (url_mappings s) = fst ` set (url_stats s)"
  show "fst ` set (url_mappings (snd (get_stats now code s)))
          = fst ` set (url_stats (snd (get_stats now code s)))"
    by (rule get_stats_keys[OF k])
next
  assume k: "fst ` set (url_mappings s) = fst ` set (url_stats s)"
  show "fst ` set (url_mappings (snd (list_urls s))) = fst ` set (url_stats (snd (list_urls s)))"
    by (rule list_urls_keys[OF k])
next
  fix t0 t1 req r s'
  assume k: "fst ` set (url_mappings s) = fst ` set (url_stats s)"
    and h: "handle_request P t0 t1 draws req s = Some (r, s')"
  show "fst ` set (url_mappings s') = fst ` set (url_stats s')"
    by (rule handle_request_keys[OF k h])
qed

text \<open>
  A store with one record, and the store after a request that inserts a second one.
\<close>

theorem tables_have_same_keys_witness:
  "fst ` set [(''abc123'', ''https://example.org'')]
     = fst ` set [(''abc123'', \<lparr>clicks = 3, created_at = IsoStr 63800000000000000,
                                  expires_at = PNone\<rparr>)]
   \<and> handle_request urlparse_core 63900000000000000 63900000000000000 [''abc123'', ''xyz789'']
      (PostShorten (JObj [(''url'', JStr ''https://example.com'')]))
      \<lparr>url_mappings = [(''abc123'', ''https://example.org'')],
       url_stats = [(''abc123'', \<lparr>clicks = 3, created_at = IsoStr 63800000000000000,
                                  expires_at = PNone\<rparr>)]\<rparr>
     = Some (Inr (Created ''xyz789'' ''https://example.com'' PNone),
         \<lparr>url_mappings = [(''abc123'', ''https://example.org''), (''xyz789'', ''https://example.com'')],
          url_stats = [(''abc123'', \<lparr>clicks = 3, created_at = IsoStr 63800000000000000,
                                     expires_at = PNone\<rparr>),
                       (''xyz789'', \<lparr>clicks = 0, created_at = IsoStr 63900000000000000,
                                     expires_at = PNone\<rparr>)]\<rparr>)
   \<and> fst ` set [(''abc123'', ''https://example.org''), (''xyz789'', ''https://example.com'')]
     = fst ` set [(''abc123'', \<lparr>clicks = 3, created_at = IsoStr 63800000000000000,
                                     expires_at = PNone\<rparr>),
                  (''xyz789'', \<lparr>clicks = 0, created_at = IsoStr 63900000000000000,
                                     expires_at = PNone\<rparr>)]"
proof -
  let ?s = "\<lparr>url_mappings = [(''abc123'', ''https://example.org'')],
       url_stats = [(''abc123'', \<lparr>clicks = 3, created_at = IsoStr 63800000000000000,
                                  expires_at = PNone\<rparr>)]\<rparr>"
  let ?t = "\<lparr>url_mappings = [(''abc123'', ''https://example.org''), (''xyz789'', ''https://example.com'')],
          url_stats = [(''abc123'', \<lparr>clicks = 3, created_at = IsoStr 63800000000000000,
                                     expires_at = PNone\<rparr>),
                       (''xyz789'', \<lparr>clicks = 0, created_at = IsoStr 63900000000000000,
                                     expires_at = PNone\<rparr>)]\<rparr>"
  have k: "fst ` set (url_mappings ?s) = fst ` set (url_stats ?s)" by simp
  have k1: "fst ` set [(''abc123'', ''https://example.org'')]
     = fst ` set [(''abc123'', \<lparr>clicks = 3, created_at = IsoStr 63800000000000000,
                                  expires_at = PNone\<rparr>)]" by simp
  have m: "map_of [(''url'', JStr ''https://example.com'')] ''url'' = Some (JStr ''https://example.com'')"
    by simp
  have c: "cleanup_expired_urls 63900000000000000 ?s = (Inr (), ?s)"
    by (simp add: cleanup_expired_urls_def)
  have 1: "shorten_url urlparse_core 63900000000000000 [''abc123'', ''xyz789'']
      (JObj [(''url'', JStr ''https://example.com'')]) ?s
     = Some (Inr (Created ''xyz789'' ''https://example.com'' PNone), ?t)"
    by (subst shorten_url_obj_str[OF m]) (simp add: strip_example valid_example)
  have h: "handle_request urlparse_core 63900000000000000 63900000000000000 [''abc123'', ''xyz789'']
      (PostShorten (JObj [(''url'', JStr ''https://example.com'')])) ?s
     = Some (Inr (Created ''xyz789'' ''https://example.com'' PNone), ?t)"
    by (simp only: handle_request_def c 1 prod.case sum.case request.case)
  have "fst ` set (url_mappings ?t) = fst ` set (url_stats ?t)"
    by (rule tables_have_same_keys[THEN conjunct2, THEN mp, OF k, THEN conjunct2, THEN conjunct2,
          THEN conjunct2, THEN conjunct2, THEN conjunct2, rule_format, OF h])
  then have k2: "fst ` set [(''abc123'', ''https://example.org''), (''xyz789'', ''https://example.com'')]
     = fst ` set [(''abc123'', \<lparr>clicks = 3, created_at = IsoStr 63800000000000000,
                                     expires_at = PNone\<rparr>),
                  (''xyz789'', \<lparr>clicks = 0, created_at = IsoStr 63900000000000000,
                                     expires_at = PNone\<rparr>)]"
    by (simp only: store.select_convs)
  show ?thesis by (rule conjI[OF k1 conjI[OF h k2]])
qed

subsection \<open>C10: the URL is stripped before it is validated and stored\<close>

text \<open>
  Claim C10: for every request body whose \<open>url\<close> is a string, validation is applied to
  the string with surrounding whitespace removed, and that stripped string is what a 201
  stores and echoes as \<open>original_url\<close>.

  For a body whose \<open>url\<close> is the string \<open>raw\<close>: a 201 echoes \<open>strip raw\<close>, stores it
  under the returned code (which also has a stats entry), and \<open>strip raw\<close> is valid; if
  \<open>strip raw\<close> is not valid the answer is the 400 of line 77 and the store is unchanged.
  \<open>strip raw\<close> is \<open>raw\<close> without a prefix and a suffix of whitespace, and it neither
  starts nor ends with whitespace.
\<close>

theorem shorten_url_strips:
  "map_of kvs ''url'' = Some (JStr raw) \<longrightarrow>
     (\<forall>c u exp s'. shorten_url P now draws (JObj kvs) s = Some (Inr (Created c u exp), s') \<longrightarrow>
         u = strip raw \<and> map_of (url_mappings s') c = Some (strip raw)
       \<and> (\<exists>st. map_of (url_stats s') c = Some st) \<and> is_valid_url P (strip raw))
   \<and> (\<not> is_valid_url P (strip raw) \<longrightarrow>
         shorten_url P now draws (JObj kvs) s
           = Some (Inr (BadRequest ''Invalid URL. Must include http:// or https:// and a domain''), s))
   \<and> (\<exists>pre post. raw = pre @ strip raw @ post \<and> list_all isspace pre \<and> list_all isspace post)
   \<and> (strip raw \<noteq> [] \<longrightarrow> \<not> isspace (hd (strip raw)) \<and> \<not> isspace (last (strip raw)))"
proof (intro impI conjI allI)
  fix c u exp s'
  assume m: "map_of kvs ''url'' = Some (JStr raw)"
    and a: "shorten_url P now draws (JObj kvs) s = Some (Inr (Created c u exp), s')"
  from shorten_url_obj_created[OF a] m show u: "u = strip raw" and "is_valid_url P (strip raw)"
    by auto
  from shorten_url_created[OF a]
  have s': "s' = s\<lparr>url_mappings := AList.update c u (url_mappings s),
             url_stats := AList.update c \<lparr>clicks = 0, created_at = IsoStr now, expires_at = exp\<rparr> (url_stats s)\<rparr>"
    by simp
  show "map_of (url_mappings s') c = Some (strip raw)"
    by (simp add: s' u AList.update_conv')
  show "\<exists>st. map_of (url_stats s') c = Some st"
    by (simp add: s' AList.update_conv')
next
  assume m: "map_of kvs ''url'' = Some (JStr raw)" and "\<not> is_valid_url P (strip raw)"
  then show "shorten_url P now draws (JObj kvs) s
           = Some (Inr (BadRequest ''Invalid URL. Must include http:// or https:// and a domain''), s)"
    by (simp add: shorten_url_obj_str[OF m])
next
  show "\<exists>pre post. raw = pre @ strip raw @ post \<and> list_all isspace pre \<and> list_all isspace post"
    by (rule strip_decomp)
next
  assume "strip raw \<noteq> []"
  then show "\<not> isspace (hd (strip raw))" and "\<not> isspace (last (strip raw))"
    using strip_ends by blast+
qed

text \<open>
  A URL sent with two leading blanks and one trailing blank is stored without them.
\<close>

theorem shorten_url_strips_witness:
  "map_of [(''url'', JStr ''  https://example.com '')] ''url''
     = Some (JStr ''  https://example.com '')
   \<and> strip ''  https://example.com '' = ''https://example.com''
   \<and> shorten_url urlparse_core 63900000000000000 [''abc123'']
        (JObj [(''url'', JStr ''  https://example.com '')])
        empty_store
      = Some (Inr (Created ''abc123'' ''https://example.com'' PNone),
          \<lparr>url_mappings = [(''abc123'', ''https://example.com'')],
           url_stats = [(''abc123'', \<lparr>clicks = 0, created_at = IsoStr 63900000000000000,
                                      expires_at = PNone\<rparr>)]\<rparr>)
   \<and> is_valid_url urlparse_core ''https://example.com''"
proof -
  let ?raw = "''  https://example.com ''"
  let ?t = "\<lparr>url_mappings = [(''abc123'', ''https://example.com'')],
           url_stats = [(''abc123'', \<lparr>clicks = 0, created_at = IsoStr 63900000000000000,
                                      expires_at = PNone\<rparr>)]\<rparr>"
  have m: "map_of [(''url'', JStr ?raw)] ''url'' = Some (JStr ?raw)" by simp
  have st: "strip ?raw = ''https://example.com''" by (simp add: strip_def isspace_def)
  have v: "is_valid_url urlparse_core ''https://example.com''"
    by (simp add: is_valid_url_def urlparse_core_def split_scheme_def scheme_char_def
        code_chars_def lower_def)
  have r: "shorten_url urlparse_core 63900000000000000 [''abc123''] (JObj [(''url'', JStr ?raw)])
        empty_store = Some (Inr (Created ''abc123'' ''https://example.com'' PNone), ?t)"
    by (simp add: shorten_url_obj_str[OF m] st v empty_store_def)
  have "is_valid_url urlparse_core (strip ?raw)"
    using shorten_url_strips[of "[(''url'', JStr ?raw)]" ?raw urlparse_core 63900000000000000
        "[''abc123'']" empty_store] m r by blast
  then have "is_valid_url urlparse_core ''https://example.com''" by (simp only: st)
  with m st r show ?thesis by (intro conjI)
qed

end
